theory Spec2Isabelle
  imports Complex_Main "HOL-Library.AList"
begin

section \<open>Data model\<close>

text \<open>
  The dashboard script reads two JSON arrays of event objects (\<^verbatim>\<open>events.json\<close> and
  \<^verbatim>\<open>past_events.json\<close>), merges and deduplicates them in \<^verbatim>\<open>loadDisasterData\<close>,
  and clusters the resulting events in \<^verbatim>\<open>updateStats\<close> and \<^verbatim>\<open>checkRiskAlerts\<close>.

  A field of a JSON event is a string, \<^verbatim>\<open>null\<close>, or missing (\<^verbatim>\<open>undefined\<close>).
  Strings are ASCII texts; numbers are real numbers (the rounding of IEEE
  doubles and the two infinities are not represented), and \<^verbatim>\<open>NaN\<close> is \<open>None\<close>.
\<close>

datatype jsstr = Undefined | Null | Str string

text \<open>The event object. Raw events carry their coordinates as JSON fields; the
  preprocessing step of \<^verbatim>\<open>loadDisasterData\<close> overwrites them with numbers and adds
  \<^verbatim>\<open>event_date\<close> (milliseconds since the epoch) and \<^verbatim>\<open>hasValidCoords\<close>.\<close>

record 'c ev =
  event_id :: jsstr
  event_title :: jsstr
  event_category :: jsstr
  event_date_utc :: jsstr
  crawled_at :: jsstr
  latitude :: 'c
  longitude :: 'c

type_synonym raw_event = "jsstr ev"

record event = "real ev" +
  event_date :: int
  hasValidCoords :: bool

text \<open>The built-in functions of the language that the script calls on strings and
  numbers. They are not code of the script, so every definition below takes them as
  an argument: \<^verbatim>\<open>parseFloat\<close> (\<open>None\<close> is \<^verbatim>\<open>NaN\<close>), \<^verbatim>\<open>Number.prototype.toFixed(4)\<close>, and
  the string parser of \<^verbatim>\<open>new Date(s)\<close> (milliseconds, \<open>None\<close> is an invalid date).\<close>

record builtins =
  parseFloat :: "string \<Rightarrow> real option"
  toFixed4 :: "real \<Rightarrow> string"
  parseDate :: "string \<Rightarrow> int option"

section \<open>Strings\<close>

text \<open>White space (\<^verbatim>\<open>\s\<close>, \<^verbatim>\<open>trim\<close>), word characters (\<^verbatim>\<open>\w\<close>) and \<^verbatim>\<open>toLowerCase\<close>, on
  ASCII characters.\<close>

definition isSpace :: "char \<Rightarrow> bool" where
  "isSpace c = (c \<in> set [CHR 0x09, CHR 0x0A, CHR 0x0B, CHR 0x0C, CHR 0x0D, CHR '' ''])"

definition isWord :: "char \<Rightarrow> bool" where
  "isWord c = (c \<in> set ''abcdefghijklmnopqrstuvwxyzABCDEFGHIJKLMNOPQRSTUVWXYZ0123456789_'')"

definition toLowerChar :: "char \<Rightarrow> char" where
  "toLowerChar c =
     (case map_of (zip ''ABCDEFGHIJKLMNOPQRSTUVWXYZ'' ''abcdefghijklmnopqrstuvwxyz'') c of
        Some l \<Rightarrow> l
      | None \<Rightarrow> c)"

definition toLowerCase :: "string \<Rightarrow> string" where
  "toLowerCase s = map toLowerChar s"

definition trim :: "string \<Rightarrow> string" where
  "trim s = rev (dropWhile isSpace (rev (dropWhile isSpace s)))"

text \<open>\<^verbatim>\<open>s.replace(/[^\w\s]/g, '')\<close>\<close>

definition stripPunct :: "string \<Rightarrow> string" where
  "stripPunct s = filter (\<lambda>c. isWord c \<or> isSpace c) s"

text \<open>\<^verbatim>\<open>s.replace(/\s+/g, ' ')\<close>: every maximal run of white space becomes one blank.\<close>

function collapseSpaces :: "string \<Rightarrow> string" where
  "collapseSpaces [] = []"
| "collapseSpaces (c # cs) =
     (if isSpace c then CHR '' '' # collapseSpaces (dropWhile isSpace cs)
      else c # collapseSpaces cs)"
  by pat_completeness auto
termination
  by (relation "measure length") (auto simp: length_dropWhile_le less_Suc_eq_le)

text \<open>Truthiness of a field: \<^verbatim>\<open>null\<close>, \<^verbatim>\<open>undefined\<close> and the empty string are falsy.\<close>

definition truthy :: "jsstr \<Rightarrow> bool" where
  "truthy v = (case v of Str s \<Rightarrow> s \<noteq> [] | _ \<Rightarrow> False)"

text \<open>\<^verbatim>\<open>v || ''\<close>\<close>

definition orEmpty :: "jsstr \<Rightarrow> string" where
  "orEmpty v = (case v of Str s \<Rightarrow> s | _ \<Rightarrow> [])"

text \<open>\<^verbatim>\<open>v && v.trim() !== ''\<close>: the test applied to identifiers and titles.\<close>

definition nonBlank :: "jsstr \<Rightarrow> bool" where
  "nonBlank v = (case v of Str s \<Rightarrow> s \<noteq> [] \<and> trim s \<noteq> [] | _ \<Rightarrow> False)"

text \<open>A blank string: empty or white space only.\<close>

definition blank :: "string \<Rightarrow> bool" where
  "blank s = (\<forall>c \<in> set s. isSpace c)"

section \<open>Dates\<close>

text \<open>\<^verbatim>\<open>new Date(v).getTime()\<close> for a field: \<^verbatim>\<open>new Date(null)\<close> is the epoch,
  \<^verbatim>\<open>new Date(undefined)\<close> is invalid, a string is parsed.\<close>

definition newDate :: "builtins \<Rightarrow> jsstr \<Rightarrow> int option" where
  "newDate B v = (case v of Undefined \<Rightarrow> None | Null \<Rightarrow> Some 0 | Str s \<Rightarrow> parseDate B s)"

text \<open>\<^verbatim>\<open>new Date(event.crawled_at || 0)\<close>: a falsy capture time is the epoch.\<close>

definition crawlTime :: "builtins \<Rightarrow> ('c, 'z) ev_scheme \<Rightarrow> int option" where
  "crawlTime B event =
     (if truthy (crawled_at event) then newDate B (crawled_at event) else Some 0)"

text \<open>\<^verbatim>\<open>a > b\<close> on two dates: false as soon as one of them is invalid.\<close>

definition dateGt :: "int option \<Rightarrow> int option \<Rightarrow> bool" where
  "dateGt a b = (case (a, b) of (Some x, Some y) \<Rightarrow> x > y | _ \<Rightarrow> False)"

section \<open>loadDisasterData: the identity pass\<close>

text \<open>\<^verbatim>\<open>eventMap\<close> is a \<^verbatim>\<open>Map\<close>: it iterates in insertion order, and \<^verbatim>\<open>set\<close> on a
  present key replaces the value in place. It is an association list with
  \<^const>\<open>AList.update\<close>.\<close>

definition identityStep ::
  "builtins \<Rightarrow> (string \<times> raw_event) list \<Rightarrow> raw_event \<Rightarrow> (string \<times> raw_event) list" where
  "identityStep B eventMap event =
     (case event_id event of
        Str eventId \<Rightarrow>
          if eventId \<noteq> [] \<and> trim eventId \<noteq> [] then
            (case map_of eventMap eventId of
               None \<Rightarrow> AList.update eventId event eventMap
             | Some existing \<Rightarrow>
                 if dateGt (crawlTime B event) (crawlTime B existing)
                 then AList.update eventId event eventMap
                 else eventMap)
          else eventMap
      | _ \<Rightarrow> eventMap)"

definition identityMap :: "builtins \<Rightarrow> raw_event list \<Rightarrow> (string \<times> raw_event) list" where
  "identityMap B allEvents = foldl (identityStep B) [] allEvents"

text \<open>\<^verbatim>\<open>eventMap.values()\<close>\<close>

definition identityPass :: "builtins \<Rightarrow> raw_event list \<Rightarrow> raw_event list" where
  "identityPass B allEvents = map snd (identityMap B allEvents)"

section \<open>loadDisasterData: the content pass\<close>

text \<open>\<^verbatim>\<open>(event.event_title || '').trim().toLowerCase().replace(/[^\w\s]/g, '').replace(/\s+/g, ' ')\<close>\<close>

definition normalizeTitle :: "jsstr \<Rightarrow> string" where
  "normalizeTitle t = collapseSpaces (stripPunct (toLowerCase (trim (orEmpty t))))"

text \<open>\<^verbatim>\<open>(event.event_date_utc || '').substring(0, 10)\<close>\<close>

definition keyDate :: "jsstr \<Rightarrow> string" where
  "keyDate d = take 10 (orEmpty d)"

text \<open>\<^verbatim>\<open>parseFloat(v || 0).toFixed(4)\<close>: a falsy field is the number 0, and
  \<^verbatim>\<open>NaN.toFixed(4)\<close> is the string \<^verbatim>\<open>NaN\<close>.\<close>

definition keyCoord :: "builtins \<Rightarrow> jsstr \<Rightarrow> string" where
  "keyCoord B v =
     (case (if truthy v then parseFloat B (orEmpty v) else Some 0) of
        None \<Rightarrow> ''NaN''
      | Some x \<Rightarrow> toFixed4 B x)"

text \<open>\<^verbatim>\<open>`${title}|${date}|${lat}|${lon}`\<close>\<close>

definition contentKey :: "builtins \<Rightarrow> raw_event \<Rightarrow> string" where
  "contentKey B event =
     normalizeTitle (event_title event) @ ''|'' @ keyDate (event_date_utc event) @ ''|'' @
     keyCoord B (latitude event) @ ''|'' @ keyCoord B (longitude event)"

text \<open>The loop over \<^verbatim>\<open>eventMap.values()\<close>; \<open>seenKeys\<close> is the set of keys of the records
  pushed so far, and the result lists the pushed records in the order of the pushes.\<close>

fun contentLoop :: "builtins \<Rightarrow> string set \<Rightarrow> raw_event list \<Rightarrow> raw_event list" where
  "contentLoop B seenKeys [] = []"
| "contentLoop B seenKeys (event # rest) =
     (let title = normalizeTitle (event_title event);
          key = contentKey B event
      in if key \<notin> seenKeys \<and> title \<noteq> []
         then event # contentLoop B (insert key seenKeys) rest
         else contentLoop B seenKeys rest)"

definition contentPass :: "builtins \<Rightarrow> raw_event list \<Rightarrow> raw_event list" where
  "contentPass B events = contentLoop B {} events"

text \<open>Both passes, as \<^verbatim>\<open>loadDisasterData\<close> runs them on \<^verbatim>\<open>[...pastData, ...mainData]\<close>.\<close>

definition deduplicate :: "builtins \<Rightarrow> raw_event list \<Rightarrow> raw_event list" where
  "deduplicate B allEvents = contentPass B (identityPass B allEvents)"

section \<open>loadDisasterData: preprocessing\<close>

text \<open>The coordinate of the preprocessing step: \<^verbatim>\<open>null\<close>, \<^verbatim>\<open>undefined\<close> and the empty
  string are 0, and so is a string on which \<^verbatim>\<open>parseFloat\<close> gives \<^verbatim>\<open>NaN\<close>.\<close>

definition sanitizeCoord :: "builtins \<Rightarrow> jsstr \<Rightarrow> real" where
  "sanitizeCoord B v =
     (case v of
        Str s \<Rightarrow> if s = [] then 0 else (case parseFloat B s of None \<Rightarrow> 0 | Some x \<Rightarrow> x)
      | _ \<Rightarrow> 0)"

text \<open>\<^verbatim>\<open>s.includes(p)\<close> and \<^verbatim>\<open>s.replace(p, r)\<close> for a string pattern: the first
  occurrence is replaced.\<close>

fun includesStr :: "string \<Rightarrow> string \<Rightarrow> bool" where
  "includesStr [] p = (p = [])"
| "includesStr (c # cs) p = (take (length p) (c # cs) = p \<or> includesStr cs p)"

fun replaceFirst :: "string \<Rightarrow> string \<Rightarrow> string \<Rightarrow> string" where
  "replaceFirst [] p r = (if p = [] then r else [])"
| "replaceFirst (c # cs) p r =
     (if take (length p) (c # cs) = p then r @ drop (length p) (c # cs)
      else c # replaceFirst cs p r)"

text \<open>The repair of dates such as \<^verbatim>\<open>2025-07-08T00:00:00+00:00Z\<close>.\<close>

definition fixDateString :: "jsstr \<Rightarrow> jsstr" where
  "fixDateString d =
     (case d of
        Str s \<Rightarrow> if s \<noteq> [] \<and> includesStr s ''+00:00Z''
                 then Str (replaceFirst s ''+00:00Z'' ''Z'') else Str s
      | _ \<Rightarrow> d)"

text \<open>The callback of \<^verbatim>\<open>deduped.map\<close>; \<open>now\<close> is the value of \<^verbatim>\<open>new Date()\<close>. No
  operation of the callback throws on string fields, so the \<^verbatim>\<open>catch\<close> branch that
  returns \<^verbatim>\<open>null\<close> is never taken.\<close>

definition sanitize :: "builtins \<Rightarrow> int \<Rightarrow> raw_event \<Rightarrow> event" where
  "sanitize B now event =
     (let lat = sanitizeCoord B (latitude event);
          lon = sanitizeCoord B (longitude event);
          eventDate = newDate B (fixDateString (event_date_utc event))
      in \<lparr> event_id = event_id event,
           event_title = event_title event,
           event_category = event_category event,
           event_date_utc = event_date_utc event,
           crawled_at = crawled_at event,
           latitude = lat,
           longitude = lon,
           event_date = (case eventDate of None \<Rightarrow> now | Some t \<Rightarrow> t),
           hasValidCoords = (lat \<noteq> 0 \<and> lon \<noteq> 0) \<rparr>)"

text \<open>\<^verbatim>\<open>lat !== 0 && lon !== 0 && !isNaN(lat) && !isNaN(lon)\<close>: at this point \<open>lat\<close>
  and \<open>lon\<close> are numbers, \<^verbatim>\<open>NaN\<close> having been replaced by 0 above, so that the two
  \<^verbatim>\<open>isNaN\<close> tests are true.\<close>

text \<open>The filter after the map keeps the events with a non-blank title.\<close>

definition preprocess :: "builtins \<Rightarrow> int \<Rightarrow> raw_event list \<Rightarrow> event list" where
  "preprocess B now deduped =
     filter (\<lambda>event. nonBlank (event_title event)) (map (sanitize B now) deduped)"

text \<open>The preprocessing of the older copy of the loader (\<^verbatim>\<open>docs/script.js\<close>), which has
  no \<^verbatim>\<open>hasValidCoords\<close>: it keeps the events whose two coordinates parse. Its events
  are given here with optional numbers (\<open>None\<close> is \<^verbatim>\<open>NaN\<close> or an invalid date).\<close>

definition preprocess_docs ::
  "builtins \<Rightarrow> raw_event list \<Rightarrow> (raw_event \<times> real option \<times> real option \<times> int option) list" where
  "preprocess_docs B deduped =
     filter (\<lambda>(event, lat, lon, date). lat \<noteq> None \<and> lon \<noteq> None)
       (map (\<lambda>event. (event,
                       (case latitude event of Str s \<Rightarrow> parseFloat B s | _ \<Rightarrow> None),
                       (case longitude event of Str s \<Rightarrow> parseFloat B s | _ \<Rightarrow> None),
                       newDate B (event_date_utc event))) deduped)"

text \<open>The whole load: merge, deduplicate, preprocess, sort by event date (the sort of
  arrays is stable).\<close>

definition loadDisasterData ::
  "builtins \<Rightarrow> int \<Rightarrow> raw_event list \<Rightarrow> raw_event list \<Rightarrow> event list" where
  "loadDisasterData B now pastData mainData =
     sort_key event_date (preprocess B now (deduplicate B (pastData @ mainData)))"

section \<open>updateStats and checkRiskAlerts: the clustering loops\<close>

text \<open>A cluster is an object with the array \<^verbatim>\<open>events\<close> (the clusters of
  \<^verbatim>\<open>checkRiskAlerts\<close> also store the coordinates of their first event, which are never
  read again).\<close>

record cluster =
  events :: "event list"

text \<open>\<^verbatim>\<open>cluster.events.reduce((sum, e) => sum + e.latitude, 0) / cluster.events.length\<close>\<close>

definition centerLat :: "cluster \<Rightarrow> real" where
  "centerLat cluster =
     foldl (\<lambda>sum e. sum + latitude e) 0 (events cluster) / real (length (events cluster))"

definition centerLng :: "cluster \<Rightarrow> real" where
  "centerLng cluster =
     foldl (\<lambda>sum e. sum + longitude e) 0 (events cluster) / real (length (events cluster))"

definition distance :: "event \<Rightarrow> cluster \<Rightarrow> real" where
  "distance event cluster =
     sqrt ((latitude event - centerLat cluster)\<^sup>2 + (longitude event - centerLng cluster)\<^sup>2)"

text \<open>The inner \<^verbatim>\<open>for\<close> loop: the event is pushed to the first cluster within the
  radius; \<open>None\<close> when the loop ends with \<^verbatim>\<open>addedToCluster\<close> false.\<close>

fun addToCluster :: "real \<Rightarrow> event \<Rightarrow> cluster list \<Rightarrow> cluster list option" where
  "addToCluster CLUSTER_RADIUS event [] = None"
| "addToCluster CLUSTER_RADIUS event (cluster # clusters) =
     (if distance event cluster \<le> CLUSTER_RADIUS
      then Some (cluster\<lparr>events := events cluster @ [event]\<rparr> # clusters)
      else map_option ((#) cluster) (addToCluster CLUSTER_RADIUS event clusters))"

definition clusterStep :: "real \<Rightarrow> cluster list \<Rightarrow> event \<Rightarrow> cluster list" where
  "clusterStep CLUSTER_RADIUS clusters event =
     (case addToCluster CLUSTER_RADIUS event clusters of
        Some clusters' \<Rightarrow> clusters'
      | None \<Rightarrow> clusters @ [\<lparr>events = [event]\<rparr>])"

text \<open>The \<^verbatim>\<open>forEach\<close> over the input events. The two functions run the same loop.\<close>

definition clusterEvents :: "real \<Rightarrow> event list \<Rightarrow> cluster list" where
  "clusterEvents CLUSTER_RADIUS input = foldl (clusterStep CLUSTER_RADIUS) [] input"

text \<open>\<^verbatim>\<open>updateStats\<close>: radius 1.0 over \<^verbatim>\<open>filteredData\<close>.\<close>

definition updateStats_clusters :: "event list \<Rightarrow> cluster list" where
  "updateStats_clusters filteredData = clusterEvents 1.0 filteredData"

text \<open>\<^verbatim>\<open>checkRiskAlerts\<close>: radius 0.5 over the events of \<^verbatim>\<open>filteredData\<close> dated on or after
  \<^verbatim>\<open>thirtyDaysAgo\<close> (the current date moved back by thirty calendar days). With no such
  event the function returns before clustering.\<close>

definition recentEvents :: "int \<Rightarrow> event list \<Rightarrow> event list" where
  "recentEvents thirtyDaysAgo filteredData =
     filter (\<lambda>event. event_date event \<ge> thirtyDaysAgo) filteredData"

definition checkRiskAlerts_clusters :: "int \<Rightarrow> event list \<Rightarrow> cluster list" where
  "checkRiskAlerts_clusters thirtyDaysAgo filteredData =
     clusterEvents 0.5 (recentEvents thirtyDaysAgo filteredData)"

section \<open>checkRiskAlerts: the risk filter\<close>






section \<open>Built-ins for the examples\<close>

text \<open>An instance of the built-ins for evaluating the examples below: the values of
  \<^verbatim>\<open>parseFloat\<close>, \<^verbatim>\<open>toFixed(4)\<close> and \<^verbatim>\<open>Date.parse\<close> at the numeric strings, numbers and
  dates that the examples use. The other strings of the examples (\<^verbatim>\<open>"abc"\<close>,
  \<^verbatim>\<open>"not a date"\<close>) are not numeric and not dates, and give \<^verbatim>\<open>NaN\<close>.\<close>

definition exampleBuiltins :: builtins where
  "exampleBuiltins =
     \<lparr> parseFloat = map_of
         [(''0'', 0), (''12.3'', 12.3), (''9.9500'', 9.95), (''10.0850'', 10.085),
          (''20.0000'', 20)],
       toFixed4 = (\<lambda>x. case map_of
         [(0, ''0.0000''), (12.3, ''12.3000''), (9.95, ''9.9500''), (10.085, ''10.0850''),
          (20, ''20.0000'')] x of
            Some s \<Rightarrow> s | None \<Rightarrow> ''NaN''),
       parseDate = map_of
         [(''2025-09-01T00:00:00Z'', 1756684800000),
          (''2025-09-01T06:30:00Z'', 1756708200000),
          (''2025-09-02T00:00:00Z'', 1756771200000),
          (''2025-09-03T00:00:00Z'', 1756857600000),
          (''2025-09-09T00:00:00Z'', 1757376000000),
          (''2025-08-20T00:00:00Z'', 1755648000000)] \<rparr>"

text \<open>A raw record and a preprocessed event with the given fields, for the examples.\<close>

definition rawRecord ::
  "string \<Rightarrow> string \<Rightarrow> string \<Rightarrow> string \<Rightarrow> string \<Rightarrow> string \<Rightarrow> string \<Rightarrow> raw_event" where
  "rawRecord i t c d lat lon cr =
     \<lparr> event_id = Str i, event_title = Str t, event_category = Str c,
       event_date_utc = Str d, crawled_at = Str cr, latitude = Str lat, longitude = Str lon \<rparr>"

definition eventAt :: "string \<Rightarrow> real \<Rightarrow> real \<Rightarrow> string \<Rightarrow> int \<Rightarrow> event" where
  "eventAt i lat lon d t =
     \<lparr> event_id = Str i, event_title = Str ''Flood'', event_category = Str ''Flood'',
       event_date_utc = Str d, crawled_at = Str d, latitude = lat, longitude = lon,
       event_date = t, hasValidCoords = (lat \<noteq> 0 \<and> lon \<noteq> 0) \<rparr>"

definition exFire1 :: raw_event where
  "exFire1 = rawRecord ''F1'' ''Forest fire'' ''Fire in built environment''
     ''2025-09-01T00:00:00Z'' ''9.9500'' ''20.0000'' ''2025-09-02T00:00:00Z''"

definition exFire2 :: raw_event where
  "exFire2 = rawRecord ''F2'' ''Forest Fire!'' ''Fire in built environment''
     ''2025-09-01T00:00:00Z'' ''10.0850'' ''20.0000'' ''2025-09-02T00:00:00Z''"

definition exFire1Later :: raw_event where
  "exFire1Later = rawRecord ''F1'' ''Forest fire (update)'' ''Fire in built environment''
     ''2025-09-01T00:00:00Z'' ''9.9500'' ''20.0000'' ''2025-09-03T00:00:00Z''"

definition exFire1NoTime :: raw_event where
  "exFire1NoTime = rawRecord ''F1'' ''Forest fire'' ''Fire in built environment''
     ''2025-09-01T00:00:00Z'' ''9.9500'' ''20.0000'' ''not a date''"

definition exFlood1 :: raw_event where
  "exFlood1 = rawRecord ''W1'' ''River flood'' ''Flood''
     ''2025-09-01T00:00:00Z'' ''9.9500'' ''20.0000'' ''2025-09-02T00:00:00Z''"

definition exFlood2 :: raw_event where
  "exFlood2 = rawRecord ''W2'' ''River flood'' ''Flood''
     ''2025-09-01T00:00:00Z'' ''10.0850'' ''20.0000'' ''2025-09-02T00:00:00Z''"

definition exFlood1Copy :: raw_event where
  "exFlood1Copy = rawRecord ''W9'' ''RIVER  flood.'' ''Flood''
     ''2025-09-01T06:30:00Z'' ''9.9500'' ''20.0000'' ''2025-09-03T00:00:00Z''"

definition exBlankId :: raw_event where
  "exBlankId = rawRecord '' '' ''Landslide'' ''Landslide''
     ''2025-09-01T00:00:00Z'' ''9.9500'' ''20.0000'' ''2025-09-02T00:00:00Z''"

definition exBlankIdLater :: raw_event where
  "exBlankIdLater = rawRecord '' '' ''Landslide'' ''Landslide''
     ''2025-09-01T00:00:00Z'' ''9.9500'' ''20.0000'' ''2025-09-03T00:00:00Z''"

definition exPunctTitle :: raw_event where
  "exPunctTitle = rawRecord ''P1'' ''! !'' ''Flood''
     ''2025-09-01T00:00:00Z'' ''9.9500'' ''20.0000'' ''2025-09-02T00:00:00Z''"

definition exNoLatitude :: raw_event where
  "exNoLatitude = rawRecord ''N1'' ''Earthquake'' ''Earthquake''
     ''2025-09-01T00:00:00Z'' [] ''12.3'' ''2025-09-02T00:00:00Z''"

definition exBadLongitude :: raw_event where
  "exBadLongitude = rawRecord ''N2'' ''Earthquake'' ''Earthquake''
     ''not a date'' ''12.3'' ''abc'' ''2025-09-02T00:00:00Z''"

definition exBadLatitude :: raw_event where
  "exBadLatitude = rawRecord ''N4'' ''Landslide'' ''Landslide''
     ''2025-09-01T00:00:00Z'' ''abc'' ''12.3'' ''2025-09-02T00:00:00Z''"

definition exNoTitle :: raw_event where
  "exNoTitle = rawRecord ''N3'' ''  '' ''Earthquake''
     ''2025-09-01T00:00:00Z'' ''9.9500'' ''20.0000'' ''2025-09-02T00:00:00Z''"

text \<open>Five events on one meridian, at latitudes 1.25, 2.5, 2.125, 2.5 and 0.875.\<close>

definition exFive :: "event list" where
  "exFive =
     [eventAt ''1'' 1.25 20 ''2025-09-01T00:00:00Z'' 1756684800000,
      eventAt ''2'' 2.5 20 ''2025-09-01T00:00:00Z'' 1756684800000,
      eventAt ''3'' 2.125 20 ''2025-09-01T00:00:00Z'' 1756684800000,
      eventAt ''4'' 2.5 20 ''2025-09-01T00:00:00Z'' 1756684800000,
      eventAt ''5'' 0.875 20 ''2025-09-01T00:00:00Z'' 1756684800000]"





section \<open>The recency test in the words of the specification\<close>


section \<open>Notions used in the proofs\<close>

text \<open>The invariant of \<^verbatim>\<open>eventMap\<close>: keys are distinct and non-blank, and every record is
  stored under its own identifier.\<close>

definition idInv :: "(string \<times> raw_event) list \<Rightarrow> bool" where
  "idInv m \<longleftrightarrow> distinct (map fst m) \<and> (\<forall>(k, v) \<in> set m. event_id v = Str k \<and> \<not> blank k)"

text \<open>What the identity pass does to the entry of one identifier when it meets a record
  with that identifier.\<close>

definition keepLatest :: "builtins \<Rightarrow> raw_event option \<Rightarrow> raw_event \<Rightarrow> raw_event option" where
  "keepLatest B cur e =
     (case cur of
        None \<Rightarrow> Some e
      | Some existing \<Rightarrow>
          if dateGt (crawlTime B e) (crawlTime B existing) then Some e else Some existing)"

section \<open>Lemmas\<close>

subsection \<open>Strings and the identity map\<close>

lemma trim_Nil_iff: "trim s = [] \<longleftrightarrow> blank s"
proof -
  have "trim s = [] \<longleftrightarrow> (\<forall>c \<in> set (dropWhile isSpace s). isSpace c)"
    by (simp add: trim_def dropWhile_eq_Nil_conv)
  also have "\<dots> \<longleftrightarrow> dropWhile isSpace s = []"
  proof
    assume a: "\<forall>c \<in> set (dropWhile isSpace s). isSpace c"
    show "dropWhile isSpace s = []"
    proof (rule ccontr)
      assume "dropWhile isSpace s \<noteq> []"
      then have "\<not> isSpace (hd (dropWhile isSpace s))" "hd (dropWhile isSpace s) \<in> set (dropWhile isSpace s)"
        by (auto simp: hd_dropWhile)
      with a show False by blast
    qed
  qed (auto dest: set_dropWhileD)
  also have "\<dots> \<longleftrightarrow> blank s"
    by (simp add: dropWhile_eq_Nil_conv blank_def)
  finally show ?thesis .
qed

lemma nonBlank_iff: "nonBlank v \<longleftrightarrow> (\<exists>s. v = Str s \<and> \<not> blank s)"
  by (cases v) (auto simp: nonBlank_def trim_Nil_iff blank_def)

lemma set_update_subset: "set (AList.update k v al) \<subseteq> insert (k, v) (set al)"
  by (induction al) auto

lemma update_fresh: "k \<notin> fst ` set al \<Longrightarrow> AList.update k v al = al @ [(k, v)]"
  by (induction al) auto

lemma idInv_update:
  assumes "idInv m" "event_id e = Str k" "\<not> blank k"
  shows "idInv (AList.update k e m)"
proof -
  have "set (AList.update k e m) \<subseteq> insert (k, e) (set m)"
    by (rule set_update_subset)
  with assms show ?thesis
    unfolding idInv_def by (auto simp: distinct_update)
qed

lemma idInv_step: "idInv m \<Longrightarrow> idInv (identityStep B m e)"
  unfolding identityStep_def
  by (auto split: jsstr.splits option.splits simp: idInv_update trim_Nil_iff)

lemma idInv_foldl: "idInv m \<Longrightarrow> idInv (foldl (identityStep B) m xs)"
  by (induction xs arbitrary: m) (auto simp: idInv_step)

lemma idInv_identityMap: "idInv (identityMap B xs)"
  unfolding identityMap_def by (rule idInv_foldl) (simp add: idInv_def)

subsection \<open>The identity pass on records with distinct identifiers; the content pass on its own output\<close>

lemma identityStep_fresh:
  assumes "event_id e = Str k" "\<not> blank k" "k \<notin> fst ` set m"
  shows "identityStep B m e = m @ [(k, e)]"
proof -
  have "map_of m k = None" using assms(3) by (simp add: map_of_eq_None_iff)
  moreover have "k \<noteq> []" using assms(2) by (auto simp: blank_def)
  ultimately show ?thesis
    using assms by (simp add: identityStep_def trim_Nil_iff update_fresh)
qed

lemma identity_foldl_distinct:
  assumes "distinct (map event_id xs)"
    and "\<forall>e \<in> set xs. \<exists>k. event_id e = Str k \<and> \<not> blank k \<and> k \<notin> fst ` set m"
  shows "foldl (identityStep B) m xs = m @ map (\<lambda>e. (orEmpty (event_id e), e)) xs"
  using assms
proof (induction xs arbitrary: m)
  case Nil
  then show ?case by simp
next
  case (Cons x xs)
  from Cons.prems(2) obtain k where k: "event_id x = Str k" "\<not> blank k" "k \<notin> fst ` set m"
    by auto
  have step: "identityStep B m x = m @ [(k, x)]"
    using k by (rule identityStep_fresh)
  have "\<forall>e \<in> set xs. \<exists>k'. event_id e = Str k' \<and> \<not> blank k' \<and> k' \<notin> fst ` set (m @ [(k, x)])"
  proof
    fix e assume e: "e \<in> set xs"
    with Cons.prems(2) obtain k' where k': "event_id e = Str k'" "\<not> blank k'" "k' \<notin> fst ` set m"
      by auto
    from Cons.prems(1) e have "event_id e \<noteq> event_id x" by (auto simp: image_iff)
    with k k' have "k' \<noteq> k" by auto
    with k' show "\<exists>k'. event_id e = Str k' \<and> \<not> blank k' \<and> k' \<notin> fst ` set (m @ [(k, x)])"
      by auto
  qed
  with Cons.prems(1) have "foldl (identityStep B) (m @ [(k, x)]) xs
      = (m @ [(k, x)]) @ map (\<lambda>e. (orEmpty (event_id e), e)) xs"
    by (intro Cons.IH) simp_all
  with step k show ?case by (simp add: orEmpty_def)
qed

lemma identityPass_distinct_id:
  assumes "distinct (map event_id xs)" "\<forall>e \<in> set xs. nonBlank (event_id e)"
  shows "identityPass B xs = xs"
proof -
  have "\<forall>e \<in> set xs. \<exists>k. event_id e = Str k \<and> \<not> blank k \<and> k \<notin> fst ` set ([] :: (string \<times> raw_event) list)"
    using assms(2) by (auto simp: nonBlank_iff)
  with assms(1) have "foldl (identityStep B) [] xs = [] @ map (\<lambda>e. (orEmpty (event_id e), e)) xs"
    by (rule identity_foldl_distinct)
  then show ?thesis
    by (simp add: identityPass_def identityMap_def comp_def)
qed

lemma idInv_values:
  assumes "idInv m"
  shows "distinct (map event_id (map snd m))" "\<forall>e \<in> set (map snd m). nonBlank (event_id e)"
proof -
  have eq: "map event_id (map snd m) = map (Str \<circ> fst) m"
    unfolding map_map by (rule map_cong[OF refl]) (use assms in \<open>auto simp: idInv_def\<close>)
  have "distinct (map Str (map fst m))"
    using assms by (simp add: idInv_def distinct_map inj_on_def)
  then show "distinct (map event_id (map snd m))" unfolding eq by (simp only: map_map)
  show "\<forall>e \<in> set (map snd m). nonBlank (event_id e)"
    using assms by (auto simp: idInv_def nonBlank_iff)
qed

lemma identityPass_ids:
  "distinct (map event_id (identityPass B xs))"
  "\<forall>e \<in> set (identityPass B xs). nonBlank (event_id e)"
  unfolding identityPass_def using idInv_values[OF idInv_identityMap] by blast+

lemma contentLoop_subset: "set (contentLoop B seen es) \<subseteq> set es"
  by (induction es arbitrary: seen) (auto simp: Let_def)

lemma contentLoop_distinct_map:
  "distinct (map f es) \<Longrightarrow> distinct (map f (contentLoop B seen es))"
proof (induction es arbitrary: seen)
  case Nil
  then show ?case by simp
next
  case (Cons e es)
  have "f e \<notin> f ` set (contentLoop B seen' es)" for seen'
    using Cons.prems contentLoop_subset[of B seen' es] by auto
  with Cons show ?case by (auto simp: Let_def)
qed

lemma contentLoop_out:
  "z \<in> set (contentLoop B seen es) \<Longrightarrow>
     normalizeTitle (event_title z) \<noteq> [] \<and> contentKey B z \<notin> seen"
proof (induction es arbitrary: seen)
  case Nil
  then show ?case by simp
next
  case (Cons e es)
  show ?case
  proof (cases "contentKey B e \<notin> seen \<and> normalizeTitle (event_title e) \<noteq> []")
    case True
    with Cons.prems have "z = e \<or> z \<in> set (contentLoop B (insert (contentKey B e) seen) es)"
      by (simp add: Let_def)
    then show ?thesis
    proof
      assume "z = e" with True show ?thesis by simp
    next
      assume "z \<in> set (contentLoop B (insert (contentKey B e) seen) es)"
      from Cons.IH[OF this] show ?thesis by simp
    qed
  next
    case False
    with Cons.prems have "z \<in> set (contentLoop B seen es)"
      by (auto simp: Let_def)
    from Cons.IH[OF this] show ?thesis .
  qed
qed

lemma contentLoop_keys_distinct: "distinct (map (contentKey B) (contentLoop B seen es))"
proof (induction es arbitrary: seen)
  case Nil
  then show ?case by simp
next
  case (Cons e es)
  have "contentKey B e \<notin> contentKey B ` set (contentLoop B (insert (contentKey B e) seen) es)"
  proof
    assume "contentKey B e \<in> contentKey B ` set (contentLoop B (insert (contentKey B e) seen) es)"
    then obtain z where z: "z \<in> set (contentLoop B (insert (contentKey B e) seen) es)"
      and "contentKey B z = contentKey B e" by (auto simp: image_iff)
    with contentLoop_out[OF z] show False by simp
  qed
  with Cons show ?case by (auto simp: Let_def)
qed

lemma contentLoop_fix:
  assumes "distinct (map (contentKey B) zs)"
    and "\<forall>z \<in> set zs. normalizeTitle (event_title z) \<noteq> [] \<and> contentKey B z \<notin> seen"
  shows "contentLoop B seen zs = zs"
  using assms
proof (induction zs arbitrary: seen)
  case Nil
  then show ?case by simp
next
  case (Cons z zs)
  have "contentLoop B (insert (contentKey B z) seen) zs = zs"
  proof (rule Cons.IH)
    show "distinct (map (contentKey B) zs)" using Cons.prems(1) by simp
    show "\<forall>y \<in> set zs. normalizeTitle (event_title y) \<noteq> [] \<and>
            contentKey B y \<notin> insert (contentKey B z) seen"
      using Cons.prems by (auto simp: image_iff)
  qed
  with Cons.prems(2) show ?case by (simp add: Let_def)
qed

lemma contentPass_idem: "contentPass B (contentPass B es) = contentPass B es"
  unfolding contentPass_def
  by (rule contentLoop_fix) (use contentLoop_keys_distinct contentLoop_out in blast)+

lemma deduplicate_idem: "deduplicate B (deduplicate B xs) = deduplicate B xs"
proof -
  let ?ys = "identityPass B xs"
  let ?zs = "contentPass B ?ys"
  have "distinct (map event_id ?zs)"
    unfolding contentPass_def by (rule contentLoop_distinct_map) (rule identityPass_ids)
  moreover have "\<forall>e \<in> set ?zs. nonBlank (event_id e)"
    using identityPass_ids(2)[of B xs] contentLoop_subset[of B "{}" ?ys]
    unfolding contentPass_def by blast
  ultimately have "identityPass B ?zs = ?zs" by (rule identityPass_distinct_id)
  then show ?thesis by (simp add: deduplicate_def contentPass_idem)
qed

subsection \<open>The survivor of a group of records with one identifier\<close>

lemma identityStep_lookup:
  assumes "\<not> blank k"
  shows "map_of (identityStep B m e) k =
     (if event_id e = Str k then keepLatest B (map_of m k) e else map_of m k)"
proof (cases "event_id e")
  case (Str k')
  show ?thesis
  proof (cases "k' = k")
    case True
    with Str assms show ?thesis
      by (auto simp: identityStep_def keepLatest_def trim_Nil_iff update_conv' blank_def
          split: option.splits)
  next
    case False
    with Str show ?thesis
      by (auto simp: identityStep_def update_conv' split: option.splits)
  qed
qed (simp_all add: identityStep_def)

lemma identity_foldl_lookup:
  assumes "\<not> blank k"
  shows "map_of (foldl (identityStep B) m xs) k =
     foldl (keepLatest B) (map_of m k) (filter (\<lambda>e. event_id e = Str k) xs)"
  using assms
  by (induction xs arbitrary: m) (simp_all add: identityStep_lookup)

lemma idInv_filter:
  assumes "idInv m"
  shows "filter (\<lambda>e. event_id e = Str k) (map snd m) =
     (case map_of m k of None \<Rightarrow> [] | Some v \<Rightarrow> [v])"
  using assms
proof (induction m)
  case Nil
  then show ?case by simp
next
  case (Cons p m)
  obtain k' v' where p: "p = (k', v')" by (cases p)
  from Cons.prems have inv: "idInv m" and id: "event_id v' = Str k'" and fresh: "k' \<notin> fst ` set m"
    by (auto simp: idInv_def p)
  show ?case
  proof (cases "k' = k")
    case True
    have "map_of m k = None" using fresh True by (simp add: map_of_eq_None_iff)
    with Cons.IH[OF inv] True id p show ?thesis by simp
  next
    case False
    with Cons.IH[OF inv] id p show ?thesis by simp
  qed
qed

text \<open>The first record of the group with the greatest capture time.\<close>

lemma keepLatest_foldl:
  assumes "\<forall>e \<in> set (c # g). crawlTime B e \<noteq> None"
  shows "\<exists>w pre post. foldl (keepLatest B) (Some c) g = Some w \<and> c # g = pre @ w # post \<and>
     (\<forall>e \<in> set pre. the (crawlTime B e) < the (crawlTime B w)) \<and>
     (\<forall>e \<in> set post. the (crawlTime B e) \<le> the (crawlTime B w))"
  using assms
proof (induction g arbitrary: c)
  case Nil
  have "foldl (keepLatest B) (Some c) [] = Some c \<and> c # [] = [] @ c # [] \<and>
     (\<forall>e \<in> set []. the (crawlTime B e) < the (crawlTime B c)) \<and>
     (\<forall>e \<in> set []. the (crawlTime B e) \<le> the (crawlTime B c))" by simp
  then show ?case by blast
next
  case (Cons x g)
  from Cons.prems obtain tc tx where t: "crawlTime B c = Some tc" "crawlTime B x = Some tx"
    by auto
  show ?case
  proof (cases "tx > tc")
    case True
    then have step: "keepLatest B (Some c) x = Some x"
      using t by (simp add: keepLatest_def dateGt_def)
    from Cons.prems have "\<forall>e \<in> set (x # g). crawlTime B e \<noteq> None" by simp
    from Cons.IH[OF this] obtain w pre post where
      w: "foldl (keepLatest B) (Some x) g = Some w" "x # g = pre @ w # post"
        "\<forall>e \<in> set pre. the (crawlTime B e) < the (crawlTime B w)"
        "\<forall>e \<in> set post. the (crawlTime B e) \<le> the (crawlTime B w)"
      by blast
    have "x \<in> set (pre @ w # post)" using w(2) by (metis list.set_intros(1))
    then have "the (crawlTime B x) \<le> the (crawlTime B w)"
      using w(3,4) by auto
    with True t have "the (crawlTime B c) < the (crawlTime B w)" by simp
    with w(1,3,4) w(2)[symmetric] step have "foldl (keepLatest B) (Some c) (x # g) = Some w \<and>
       c # x # g = (c # pre) @ w # post \<and>
       (\<forall>e \<in> set (c # pre). the (crawlTime B e) < the (crawlTime B w)) \<and>
       (\<forall>e \<in> set post. the (crawlTime B e) \<le> the (crawlTime B w))" by simp
    then show ?thesis by blast
  next
    case False
    then have step: "keepLatest B (Some c) x = Some c"
      using t by (simp add: keepLatest_def dateGt_def)
    from Cons.prems have "\<forall>e \<in> set (c # g). crawlTime B e \<noteq> None" by simp
    from Cons.IH[OF this] obtain w pre post where
      w: "foldl (keepLatest B) (Some c) g = Some w" "c # g = pre @ w # post"
        "\<forall>e \<in> set pre. the (crawlTime B e) < the (crawlTime B w)"
        "\<forall>e \<in> set post. the (crawlTime B e) \<le> the (crawlTime B w)"
      by blast
    show ?thesis
    proof (cases pre)
      case Nil
      with w(2) have "w = c" "post = g" by simp_all
      with w(1,3,4) step False t have "foldl (keepLatest B) (Some c) (x # g) = Some c \<and>
         c # x # g = [] @ c # (x # g) \<and>
         (\<forall>e \<in> set []. the (crawlTime B e) < the (crawlTime B c)) \<and>
         (\<forall>e \<in> set (x # g). the (crawlTime B e) \<le> the (crawlTime B c))" by simp
      then show ?thesis by blast
    next
      case (Cons c' pre')
      with w(2) have c': "c' = c" "g = pre' @ w # post" by simp_all
      with w(3) Cons have "the (crawlTime B c) < the (crawlTime B w)" by simp
      with False t have "the (crawlTime B x) < the (crawlTime B w)" by simp
      with w(1,3,4) step c' Cons have "foldl (keepLatest B) (Some c) (x # g) = Some w \<and>
         c # x # g = (c # x # pre') @ w # post \<and>
         (\<forall>e \<in> set (c # x # pre'). the (crawlTime B e) < the (crawlTime B w)) \<and>
         (\<forall>e \<in> set post. the (crawlTime B e) \<le> the (crawlTime B w))" by simp
      then show ?thesis by blast
    qed
  qed
qed

lemma identityPass_group:
  assumes k: "\<not> blank k"
    and ne: "\<exists>e \<in> set xs. event_id e = Str k"
    and valid: "\<forall>e \<in> set xs. event_id e = Str k \<longrightarrow> crawlTime B e \<noteq> None"
  shows "\<exists>w pre post. filter (\<lambda>e. event_id e = Str k) (identityPass B xs) = [w] \<and>
     filter (\<lambda>e. event_id e = Str k) xs = pre @ w # post \<and>
     (\<forall>e \<in> set pre. the (crawlTime B e) < the (crawlTime B w)) \<and>
     (\<forall>e \<in> set post. the (crawlTime B e) \<le> the (crawlTime B w))"
proof -
  let ?g = "filter (\<lambda>e. event_id e = Str k) xs"
  from ne obtain c g where g: "?g = c # g"
    by (cases ?g) (auto simp: filter_empty_conv)
  have "\<forall>e \<in> set (c # g). crawlTime B e \<noteq> None"
    using valid unfolding g[symmetric] by simp
  from keepLatest_foldl[OF this] obtain w pre post where
    w: "foldl (keepLatest B) (Some c) g = Some w" "c # g = pre @ w # post"
      "\<forall>e \<in> set pre. the (crawlTime B e) < the (crawlTime B w)"
      "\<forall>e \<in> set post. the (crawlTime B e) \<le> the (crawlTime B w)"
    by blast
  have "map_of (identityMap B xs) k = foldl (keepLatest B) None ?g"
    unfolding identityMap_def using identity_foldl_lookup[OF k, of B "[]" xs] by simp
  also have "\<dots> = Some w" using w(1) by (simp add: g keepLatest_def)
  finally have "filter (\<lambda>e. event_id e = Str k) (identityPass B xs) = [w]"
    unfolding identityPass_def using idInv_filter[OF idInv_identityMap, of k B xs] by simp
  with w g show ?thesis by metis
qed

subsection \<open>The content key and the records met earlier\<close>

lemma collapseSpaces_set: "set (collapseSpaces s) \<subseteq> insert (CHR '' '') (set s)"
proof (induction s rule: collapseSpaces.induct)
  case 1
  then show ?case by simp
next
  case (2 c cs)
  show ?case
  proof (cases "isSpace c")
    case True
    with 2(1) have "set (collapseSpaces (dropWhile isSpace cs)) \<subseteq> insert (CHR '' '') (set cs)"
      using set_dropWhileD[of _ isSpace cs] by blast
    with True show ?thesis by auto
  next
    case False
    with 2(2) show ?thesis by auto
  qed
qed

lemma bar_not_in_normalizeTitle: "CHR ''|'' \<notin> set (normalizeTitle t)"
proof -
  have "CHR ''|'' \<notin> set (stripPunct s)" for s
    by (auto simp: stripPunct_def isWord_def isSpace_def)
  then show ?thesis
    unfolding normalizeTitle_def using collapseSpaces_set by fastforce
qed

lemma takeWhile_sep: "c \<notin> set a \<Longrightarrow> takeWhile (\<lambda>x. x \<noteq> c) (a @ c # r) = a"
  by (induction a) auto

lemma append_sep_eq:
  assumes "c \<notin> set a" "c \<notin> set b" "a @ c # r = b @ c # r'"
  shows "a = b"
proof -
  have "takeWhile (\<lambda>x. x \<noteq> c) (a @ c # r) = a" "takeWhile (\<lambda>x. x \<noteq> c) (b @ c # r') = b"
    using assms(1,2) by (simp_all add: takeWhile_sep)
  with assms(3) show ?thesis by simp
qed

lemma contentKey_title:
  assumes "contentKey B e = contentKey B e'"
  shows "normalizeTitle (event_title e) = normalizeTitle (event_title e')"
  using assms bar_not_in_normalizeTitle unfolding contentKey_def
  by (auto intro: append_sep_eq)

lemma contentLoop_append:
  "contentLoop B seen (xs @ ys) =
     contentLoop B seen xs @ contentLoop B (seen \<union> contentKey B ` set (contentLoop B seen xs)) ys"
  by (induction xs arbitrary: seen) (simp_all add: Let_def)

lemma contentLoop_covers:
  assumes "z \<in> set es" "normalizeTitle (event_title z) \<noteq> []"
  shows "contentKey B z \<in> seen \<union> contentKey B ` set (contentLoop B seen es)"
  using assms
proof (induction es arbitrary: seen)
  case Nil
  then show ?case by simp
next
  case (Cons e es)
  show ?case
  proof (cases "z = e")
    case True
    with Cons.prems show ?thesis by (simp add: Let_def)
  next
    case False
    with Cons.prems have "z \<in> set es" by simp
    from Cons.IH[OF this Cons.prems(2)] show ?thesis
      by (auto simp: Let_def)
  qed
qed

lemma contentLoop_seen_keys:
  assumes "normalizeTitle (event_title e) \<noteq> []"
  shows "contentKey B e \<in> contentKey B ` set (contentLoop B {} pre) \<longleftrightarrow>
         contentKey B e \<in> contentKey B ` set pre"
proof
  assume "contentKey B e \<in> contentKey B ` set (contentLoop B {} pre)"
  then show "contentKey B e \<in> contentKey B ` set pre"
    using contentLoop_subset[of B "{}" pre] by blast
next
  assume "contentKey B e \<in> contentKey B ` set pre"
  then obtain z where z: "z \<in> set pre" "contentKey B z = contentKey B e"
    by (auto simp: image_iff)
  from contentKey_title[OF z(2)] assms have "normalizeTitle (event_title z) \<noteq> []" by simp
  from contentLoop_covers[OF z(1) this, of B "{}"] z(2)
  show "contentKey B e \<in> contentKey B ` set (contentLoop B {} pre)" by simp
qed

lemma contentPass_snoc:
  "contentPass B (pre @ [e]) = contentPass B pre @
     (if normalizeTitle (event_title e) \<noteq> [] \<and> contentKey B e \<notin> contentKey B ` set pre
      then [e] else [])"
  unfolding contentPass_def contentLoop_append
  using contentLoop_seen_keys[of e B pre] by (auto simp: Let_def)

subsection \<open>Clusters\<close>

lemma distance_le_iff:
  "0 \<le> R \<Longrightarrow> distance e c \<le> R \<longleftrightarrow>
     (latitude e - centerLat c)\<^sup>2 + (longitude e - centerLng c)\<^sup>2 \<le> R\<^sup>2"
  unfolding distance_def
  by (metis real_sqrt_le_iff real_sqrt_abs abs_of_nonneg)

lemma distance_nonneg: "0 \<le> distance e c"
  by (simp add: distance_def)

lemma addToCluster_length:
  "addToCluster R e cs = Some cs' \<Longrightarrow> length cs' = length cs"
  by (induction cs arbitrary: cs') (auto split: if_splits)

lemma addToCluster_member:
  "addToCluster R e cs = Some cs' \<Longrightarrow> \<exists>c \<in> set cs'. e \<in> set (events c)"
  by (induction cs arbitrary: cs') (auto split: if_splits)

lemma addToCluster_keeps:
  "addToCluster R e cs = Some cs' \<Longrightarrow> c \<in> set cs \<Longrightarrow> x \<in> set (events c) \<Longrightarrow>
     \<exists>c' \<in> set cs'. x \<in> set (events c')"
  by (induction cs arbitrary: cs') (auto split: if_splits)

lemma clusterStep_member: "\<exists>c \<in> set (clusterStep R cs e). e \<in> set (events c)"
  by (auto simp: clusterStep_def dest: addToCluster_member split: option.splits)

lemma clusterStep_keeps:
  "c \<in> set cs \<Longrightarrow> x \<in> set (events c) \<Longrightarrow> \<exists>c' \<in> set (clusterStep R cs e). x \<in> set (events c')"
  by (auto simp: clusterStep_def dest: addToCluster_keeps split: option.splits)

lemma cluster_foldl_keeps:
  "c \<in> set cs \<Longrightarrow> x \<in> set (events c) \<Longrightarrow>
     \<exists>c' \<in> set (foldl (clusterStep R) cs es). x \<in> set (events c')"
proof (induction es arbitrary: cs c)
  case Nil
  then show ?case by auto
next
  case (Cons e es)
  from clusterStep_keeps[OF Cons.prems, of R e] obtain c' where
    "c' \<in> set (clusterStep R cs e)" "x \<in> set (events c')" by blast
  from Cons.IH[OF this] show ?case by simp
qed

lemma cluster_foldl_member:
  "e \<in> set es \<Longrightarrow> \<exists>c \<in> set (foldl (clusterStep R) cs es). e \<in> set (events c)"
proof (induction es arbitrary: cs)
  case Nil
  then show ?case by simp
next
  case (Cons x es)
  show ?case
  proof (cases "e = x")
    case True
    from clusterStep_member[of R cs x] obtain c where
      "c \<in> set (clusterStep R cs x)" "x \<in> set (events c)" by blast
    from cluster_foldl_keeps[OF this, of R es] True show ?thesis by simp
  next
    case False
    with Cons.prems have "e \<in> set es" by simp
    from Cons.IH[OF this] show ?thesis by simp
  qed
qed

lemma clusterEvents_member:
  "e \<in> set input \<Longrightarrow> \<exists>c \<in> set (clusterEvents R input). e \<in> set (events c)"
  unfolding clusterEvents_def by (rule cluster_foldl_member)

lemma clusterStep_length:
  "length (clusterStep R cs e) = length cs \<or> length (clusterStep R cs e) = Suc (length cs)"
  by (auto simp: clusterStep_def dest: addToCluster_length split: option.splits)

lemma cluster_foldl_length_le:
  "length (foldl (clusterStep R) cs es) \<le> length cs + length es"
proof (induction es arbitrary: cs)
  case Nil
  then show ?case by simp
next
  case (Cons e es)
  have "length (foldl (clusterStep R) (clusterStep R cs e) es) \<le> length (clusterStep R cs e) + length es"
    by (rule Cons.IH)
  with clusterStep_length[of R cs e] show ?case by auto
qed

lemma cluster_foldl_length_ge: "length cs \<le> length (foldl (clusterStep R) cs es)"
proof (induction es arbitrary: cs)
  case Nil
  then show ?case by simp
next
  case (Cons e es)
  have "length (clusterStep R cs e) \<le> length (foldl (clusterStep R) (clusterStep R cs e) es)"
    by (rule Cons.IH)
  with clusterStep_length[of R cs e] show ?case by auto
qed

lemma clusterEvents_bounds:
  "length (clusterEvents R input) \<le> length input"
  "input \<noteq> [] \<Longrightarrow> 1 \<le> length (clusterEvents R input)"
proof -
  show "length (clusterEvents R input) \<le> length input"
    unfolding clusterEvents_def using cluster_foldl_length_le[of R "[]" input] by simp
  assume "input \<noteq> []"
  then obtain e es where i: "input = e # es" by (cases input) auto
  have "length (clusterStep R [] e) \<le> length (foldl (clusterStep R) (clusterStep R [] e) es)"
    by (rule cluster_foldl_length_ge)
  then show "1 \<le> length (clusterEvents R input)"
    by (simp add: clusterEvents_def i clusterStep_def)
qed

lemma cluster_mono_le3:
  assumes "R1 < R2" "length input \<le> 3"
  shows "length (clusterEvents R2 input) \<le> length (clusterEvents R1 input)"
proof -
  consider "input = []" | a where "input = [a]" | a b where "input = [a, b]"
    | a b c where "input = [a, b, c]"
    using assms(2)
    by (cases input; cases "tl input"; cases "tl (tl input)"; cases "tl (tl (tl input))") auto
  then show ?thesis
  proof cases
    case 1
    then show ?thesis by (simp add: clusterEvents_def)
  next
    case 2
    then show ?thesis by (simp add: clusterEvents_def clusterStep_def)
  next
    case 3
    with assms(1) show ?thesis
      by (auto simp: clusterEvents_def clusterStep_def)
  next
    case 4
    with assms(1) show ?thesis
      by (auto simp: clusterEvents_def clusterStep_def split: if_splits)
  qed
qed

lemma distance_half:
  "distance e c * 2 \<le> 1 \<longleftrightarrow>
     (latitude e - centerLat c)\<^sup>2 + (longitude e - centerLng c)\<^sup>2 \<le> 1 / 4"
  using distance_le_iff[of "1/2" e c] by (simp add: power2_eq_square)

lemma distance_one:
  "distance e c \<le> 1 \<longleftrightarrow>
     (latitude e - centerLat c)\<^sup>2 + (longitude e - centerLng c)\<^sup>2 \<le> 1"
  using distance_le_iff[of 1 e c] by simp

lemmas cluster_eval = clusterEvents_def clusterStep_def distance_half distance_one
  centerLat_def centerLng_def eventAt_def power2_eq_square








subsection \<open>Preprocessing and the whole load\<close>

lemma sanitize_fields [simp]:
  "event_id (sanitize B now e) = event_id e"
  "event_title (sanitize B now e) = event_title e"
  "event_category (sanitize B now e) = event_category e"
  "event_date_utc (sanitize B now e) = event_date_utc e"
  "crawled_at (sanitize B now e) = crawled_at e"
  "latitude (sanitize B now e) = sanitizeCoord B (latitude e)"
  "longitude (sanitize B now e) = sanitizeCoord B (longitude e)"
  "hasValidCoords (sanitize B now e) \<longleftrightarrow> sanitizeCoord B (latitude e) \<noteq> 0 \<and> sanitizeCoord B (longitude e) \<noteq> 0"
  "event_date (sanitize B now e) =
     (case newDate B (fixDateString (event_date_utc e)) of None \<Rightarrow> now | Some t \<Rightarrow> t)"
  by (simp_all add: sanitize_def Let_def)

lemma sanitizeCoord_zero:
  "v \<in> {Undefined, Null, Str []} \<or> (\<exists>s. v = Str s \<and> parseFloat B s = None) \<Longrightarrow> sanitizeCoord B v = 0"
  by (auto simp: sanitizeCoord_def)

lemma sanitizeCoord_nonzero:
  "sanitizeCoord B v \<noteq> 0 \<longleftrightarrow> (\<exists>s x. v = Str s \<and> s \<noteq> [] \<and> parseFloat B s = Some x \<and> x \<noteq> 0)"
  by (cases v) (auto simp: sanitizeCoord_def split: option.splits)

lemma preprocess_eq:
  "preprocess B now deduped = map (sanitize B now) (filter (\<lambda>e. nonBlank (event_title e)) deduped)"
  by (simp add: preprocess_def filter_map comp_def)

lemma identityStep_blank: "\<not> nonBlank (event_id r) \<Longrightarrow> identityStep B m r = m"
  by (cases "event_id r") (auto simp: identityStep_def nonBlank_def)

lemma identityPass_drop_blank:
  "\<not> nonBlank (event_id r) \<Longrightarrow> identityPass B (xs @ r # ys) = identityPass B (xs @ ys)"
  by (simp add: identityPass_def identityMap_def identityStep_blank)

lemma load_set:
  "set (loadDisasterData B now pastData mainData) =
     set (preprocess B now (deduplicate B (pastData @ mainData)))"
  by (simp add: loadDisasterData_def)

lemma load_members:
  assumes "e \<in> set (loadDisasterData B now pastData mainData)"
  shows "nonBlank (event_id e) \<and> nonBlank (event_title e)"
proof -
  from assms obtain r where r: "r \<in> set (deduplicate B (pastData @ mainData))"
    "e = sanitize B now r" "nonBlank (event_title r)"
    unfolding load_set preprocess_eq by auto
  from r(1) have "r \<in> set (identityPass B (pastData @ mainData))"
    unfolding deduplicate_def contentPass_def using contentLoop_subset by blast
  with identityPass_ids(2) have "nonBlank (event_id r)" by blast
  with r show ?thesis by simp
qed

lemma contentKey_category: "contentKey B (e\<lparr>event_category := c\<rparr>) = contentKey B e"
  by (simp add: contentKey_def)

lemma contentPass_pair:
  "contentPass B [e1, e2] = [e1, e2] \<longleftrightarrow>
     normalizeTitle (event_title e1) \<noteq> [] \<and> normalizeTitle (event_title e2) \<noteq> [] \<and>
     contentKey B e1 \<noteq> contentKey B e2"
  by (auto simp: contentPass_def Let_def)

lemmas string_eval = normalizeTitle_def orEmpty_def trim_def toLowerCase_def toLowerChar_def
  stripPunct_def isSpace_def isWord_def keyDate_def keyCoord_def truthy_def

lemma preprocess_docs_parsed:
  "x \<in> set (preprocess_docs B deduped) \<Longrightarrow> fst (snd x) \<noteq> None \<and> fst (snd (snd x)) \<noteq> None"
  unfolding preprocess_docs_def by (cases x) (simp add: case_prod_unfold)

section \<open>The claims\<close>

lemmas example_eval = rawRecord_def exampleBuiltins_def string_eval contentKey_def
  crawlTime_def dateGt_def newDate_def blank_def

subsection \<open>The risk filter\<close>




subsection \<open>The identity pass\<close>

text \<open>Claim C2, as stated, fails on records whose identifier is blank: the identity pass
  skips them, so that of two records sharing the identifier \<^verbatim>\<open>" "\<close> none survives. It also
  fails when a capture time is not a date: the comparison of the dates is then false, and
  a first record with the capture time \<^verbatim>\<open>"not a date"\<close> is kept against a later record of
  the same identifier captured on 3 September.\<close>

theorem identity_pass_blank_id_counterexample:
  "identityPass exampleBuiltins [exBlankId, exBlankIdLater] = [] \<and>
   event_id exFire1NoTime = event_id exFire1Later \<and>
   crawlTime exampleBuiltins exFire1NoTime = None \<and>
   crawlTime exampleBuiltins exFire1Later = Some 1756857600000 \<and>
   identityPass exampleBuiltins [exFire1NoTime, exFire1Later] = [exFire1NoTime]"
proof -
  have a: "identityPass exampleBuiltins [exBlankId, exBlankIdLater] = []"
    by (simp add: identityPass_def identityMap_def identityStep_def exBlankId_def
        exBlankIdLater_def rawRecord_def trim_def isSpace_def)
  have ids: "event_id exFire1NoTime = Str ''F1''" "event_id exFire1Later = Str ''F1''"
    by (simp_all add: exFire1NoTime_def exFire1Later_def rawRecord_def)
  have t: "crawlTime exampleBuiltins exFire1NoTime = None"
    "crawlTime exampleBuiltins exFire1Later = Some 1756857600000"
    by (simp_all add: exFire1NoTime_def exFire1Later_def example_eval)
  have b: "identityPass exampleBuiltins [exFire1NoTime, exFire1Later] = [exFire1NoTime]"
    by (simp add: identityPass_def identityMap_def identityStep_def ids t trim_def isSpace_def
        dateGt_def)
  from a ids t b show ?thesis by simp
qed

text \<open>Claim C2, amended. Of the input records that share one non-blank identifier, and
  whose capture times are all valid dates (a missing or empty capture time is the epoch),
  exactly one survives the identity pass: the first of those with the greatest capture
  time. The records of the group before it are strictly older, the ones after it are not
  newer. No record with a missing, empty or white-space identifier survives.\<close>

theorem identity_pass_latest:
  "(\<not> blank k \<and> (\<exists>e \<in> set allEvents. event_id e = Str k) \<and>
    (\<forall>e \<in> set allEvents. event_id e = Str k \<longrightarrow> crawlTime B e \<noteq> None) \<longrightarrow>
    (\<exists>w pre post.
       filter (\<lambda>e. event_id e = Str k) (identityPass B allEvents) = [w] \<and>
       filter (\<lambda>e. event_id e = Str k) allEvents = pre @ w # post \<and>
       (\<forall>e \<in> set pre. the (crawlTime B e) < the (crawlTime B w)) \<and>
       (\<forall>e \<in> set post. the (crawlTime B e) \<le> the (crawlTime B w)))) \<and>
   (\<forall>e \<in> set (identityPass B allEvents). \<exists>i. event_id e = Str i \<and> \<not> blank i)"
proof (intro conjI impI)
  assume "\<not> blank k \<and> (\<exists>e \<in> set allEvents. event_id e = Str k) \<and>
    (\<forall>e \<in> set allEvents. event_id e = Str k \<longrightarrow> crawlTime B e \<noteq> None)"
  then show "\<exists>w pre post.
       filter (\<lambda>e. event_id e = Str k) (identityPass B allEvents) = [w] \<and>
       filter (\<lambda>e. event_id e = Str k) allEvents = pre @ w # post \<and>
       (\<forall>e \<in> set pre. the (crawlTime B e) < the (crawlTime B w)) \<and>
       (\<forall>e \<in> set post. the (crawlTime B e) \<le> the (crawlTime B w))"
    using identityPass_group[of k allEvents B] by blast
next
  show "\<forall>e \<in> set (identityPass B allEvents). \<exists>i. event_id e = Str i \<and> \<not> blank i"
    using identityPass_ids(2)[of B allEvents] by (simp add: nonBlank_iff)
qed

text \<open>Two records with the identifier \<^verbatim>\<open>F1\<close>, captured on 2 and on 3 September: only the
  later one survives, in either order of the input.\<close>

theorem identity_pass_latest_witness:
  "\<not> blank ''F1'' \<and>
   crawlTime exampleBuiltins exFire1 = Some 1756771200000 \<and>
   crawlTime exampleBuiltins exFire1Later = Some 1756857600000 \<and>
   (\<exists>w pre post.
      filter (\<lambda>e. event_id e = Str ''F1'') (identityPass exampleBuiltins [exFire1, exFire1Later])
        = [w] \<and>
      filter (\<lambda>e. event_id e = Str ''F1'') [exFire1, exFire1Later] = pre @ w # post \<and>
      (\<forall>e \<in> set pre. the (crawlTime exampleBuiltins e) < the (crawlTime exampleBuiltins w)) \<and>
      (\<forall>e \<in> set post. the (crawlTime exampleBuiltins e) \<le> the (crawlTime exampleBuiltins w))) \<and>
   identityPass exampleBuiltins [exFire1, exFire1Later] = [exFire1Later] \<and>
   identityPass exampleBuiltins [exFire1Later, exFire1] = [exFire1Later]"
proof -
  have h1: "\<not> blank ''F1''"
    by (simp add: blank_def isSpace_def)
  have h2: "\<exists>e \<in> set [exFire1, exFire1Later]. event_id e = Str ''F1''"
    by (simp add: exFire1_def rawRecord_def)
  have t1: "crawlTime exampleBuiltins exFire1 = Some 1756771200000"
    by (simp add: exFire1_def example_eval)
  have t2: "crawlTime exampleBuiltins exFire1Later = Some 1756857600000"
    by (simp add: exFire1Later_def example_eval)
  have h3: "\<forall>e \<in> set [exFire1, exFire1Later].
      event_id e = Str ''F1'' \<longrightarrow> crawlTime exampleBuiltins e \<noteq> None"
    by (simp add: t1 t2)
  have ids: "event_id exFire1 = Str ''F1''" "event_id exFire1Later = Str ''F1''"
    by (simp_all add: exFire1_def exFire1Later_def rawRecord_def)
  have a: "identityPass exampleBuiltins [exFire1, exFire1Later] = [exFire1Later]"
    by (simp add: identityPass_def identityMap_def identityStep_def ids trim_def isSpace_def
        t1 t2 dateGt_def)
  have b: "identityPass exampleBuiltins [exFire1Later, exFire1] = [exFire1Later]"
    by (simp add: identityPass_def identityMap_def identityStep_def ids trim_def isSpace_def
        t1 t2 dateGt_def)
  from identity_pass_latest[of "''F1''" "[exFire1, exFire1Later]" exampleBuiltins] h1 h2 h3
  have "\<exists>w pre post.
      filter (\<lambda>e. event_id e = Str ''F1'') (identityPass exampleBuiltins [exFire1, exFire1Later])
        = [w] \<and>
      filter (\<lambda>e. event_id e = Str ''F1'') [exFire1, exFire1Later] = pre @ w # post \<and>
      (\<forall>e \<in> set pre. the (crawlTime exampleBuiltins e) < the (crawlTime exampleBuiltins w)) \<and>
      (\<forall>e \<in> set post. the (crawlTime exampleBuiltins e) \<le> the (crawlTime exampleBuiltins w))"
    by blast
  with h1 t1 t2 a b show ?thesis by blast
qed

subsection \<open>The content pass\<close>

text \<open>Claim C3, as stated, fails on a title made of punctuation separated by white space:
  \<^verbatim>\<open>"! !"\<close> is trimmed before the punctuation is removed, its normalized title is the
  single blank \<^verbatim>\<open>" "\<close>, which is a blank but non-empty string, and the record is emitted.\<close>

theorem content_pass_blank_title_counterexample:
  "normalizeTitle (event_title exPunctTitle) = '' '' \<and>
   blank (normalizeTitle (event_title exPunctTitle)) \<and>
   contentPass exampleBuiltins [exPunctTitle] = [exPunctTitle]"
  by (simp add: exPunctTitle_def contentPass_def Let_def example_eval)

text \<open>Claim C3, amended. In encounter order, a record is kept by the content pass exactly
  when its normalized title is not the empty string and its content key is not the
  content key of a record met earlier; so among records with one content key the first
  wins, whatever follows it in the input, and no record with an empty normalized title
  is emitted.\<close>

theorem content_pass_first_seen:
  "contentPass B (pre @ [e]) =
     contentPass B pre @
       (if normalizeTitle (event_title e) \<noteq> [] \<and> contentKey B e \<notin> contentKey B ` set pre
        then [e] else []) \<and>
   (\<exists>rest. contentPass B (pre @ e # post) = contentPass B (pre @ [e]) @ rest) \<and>
   (\<forall>z \<in> set (contentPass B records). normalizeTitle (event_title z) \<noteq> [])"
proof (intro conjI)
  show "contentPass B (pre @ [e]) =
     contentPass B pre @
       (if normalizeTitle (event_title e) \<noteq> [] \<and> contentKey B e \<notin> contentKey B ` set pre
        then [e] else [])"
    by (rule contentPass_snoc)
  have "contentPass B ((pre @ [e]) @ post) =
      contentPass B (pre @ [e]) @
      contentLoop B ({} \<union> contentKey B ` set (contentLoop B {} (pre @ [e]))) post"
    unfolding contentPass_def by (rule contentLoop_append)
  then show "\<exists>rest. contentPass B (pre @ e # post) = contentPass B (pre @ [e]) @ rest"
    by simp
  show "\<forall>z \<in> set (contentPass B records). normalizeTitle (event_title z) \<noteq> []"
    unfolding contentPass_def using contentLoop_out by blast
qed

text \<open>Two flood reports of one day at one place with the titles \<^verbatim>\<open>River flood\<close> and
  \<^verbatim>\<open>RIVER  flood.\<close> have one content key: the first one met is kept, in either order;
  a record with a white-space title is dropped.\<close>

theorem content_pass_first_seen_witness:
  "contentKey exampleBuiltins exFlood1 = ''river flood|2025-09-01|9.9500|20.0000'' \<and>
   contentKey exampleBuiltins exFlood1Copy = ''river flood|2025-09-01|9.9500|20.0000'' \<and>
   contentPass exampleBuiltins [exFlood1, exFlood1Copy] = [exFlood1] \<and>
   contentPass exampleBuiltins [exFlood1Copy, exFlood1] = [exFlood1Copy] \<and>
   contentPass exampleBuiltins [exNoTitle, exFlood1] = [exFlood1]"
proof -
  have k1: "contentKey exampleBuiltins exFlood1 = ''river flood|2025-09-01|9.9500|20.0000''"
    by (simp add: exFlood1_def example_eval)
  have k2: "contentKey exampleBuiltins exFlood1Copy = ''river flood|2025-09-01|9.9500|20.0000''"
    by (simp add: exFlood1Copy_def example_eval)
  have t1: "normalizeTitle (event_title exFlood1) = ''river flood''"
    by (simp add: exFlood1_def example_eval)
  have t2: "normalizeTitle (event_title exFlood1Copy) = ''river flood''"
    by (simp add: exFlood1Copy_def example_eval)
  have t3: "normalizeTitle (event_title exNoTitle) = []"
    by (simp add: exNoTitle_def example_eval)
  have one: "contentPass B [x] = (if normalizeTitle (event_title x) \<noteq> [] then [x] else [])"
    for B x
    using content_pass_first_seen[THEN conjunct1, of B "[]" x] by (simp add: contentPass_def)
  have a: "contentPass exampleBuiltins [exFlood1, exFlood1Copy] = [exFlood1]"
    using content_pass_first_seen[THEN conjunct1, of exampleBuiltins "[exFlood1]" exFlood1Copy]
    by (simp add: one k1 k2 t1 t2)
  have b: "contentPass exampleBuiltins [exFlood1Copy, exFlood1] = [exFlood1Copy]"
    using content_pass_first_seen[THEN conjunct1, of exampleBuiltins "[exFlood1Copy]" exFlood1]
    by (simp add: one k1 k2 t1 t2)
  have c: "contentPass exampleBuiltins [exNoTitle, exFlood1] = [exFlood1]"
    using content_pass_first_seen[THEN conjunct1, of exampleBuiltins "[exNoTitle]" exFlood1]
    by (simp add: one k1 t1 t3) (simp add: exNoTitle_def example_eval)
  from k1 k2 a b c show ?thesis by simp
qed

text \<open>Claim C4, as stated, fails: the content key of \<^verbatim>\<open>loadDisasterData\<close> does not look at
  the category. Two fire records of the same day with the same normalized title, 0.135
  degrees of latitude (15 km) apart, have different keys and both survive the content
  pass.\<close>

theorem content_key_fire_counterexample:
  "event_category exFire1 = Str ''Fire in built environment'' \<and>
   event_category exFire2 = Str ''Fire in built environment'' \<and>
   normalizeTitle (event_title exFire1) = normalizeTitle (event_title exFire2) \<and>
   contentKey exampleBuiltins exFire1 = ''forest fire|2025-09-01|9.9500|20.0000'' \<and>
   contentKey exampleBuiltins exFire2 = ''forest fire|2025-09-01|10.0850|20.0000'' \<and>
   contentPass exampleBuiltins [exFire1, exFire2] = [exFire1, exFire2]"
  by (simp add: exFire1_def exFire2_def contentPass_def Let_def example_eval)

text \<open>Claim C4, amended. The content key has one granularity for every category: the
  normalized title, the first ten characters of the date (the day), and both coordinates
  printed with four decimals (0.0001 degrees). Changing the category of a record does not
  change its key, and two records with non-empty normalized titles both survive the
  content pass exactly when their keys differ, fire or not.\<close>

theorem content_key_uniform:
  "contentKey B e =
     normalizeTitle (event_title e) @ ''|'' @ take 10 (orEmpty (event_date_utc e)) @ ''|'' @
     keyCoord B (latitude e) @ ''|'' @ keyCoord B (longitude e) \<and>
   contentKey B (e\<lparr>event_category := c\<rparr>) = contentKey B e \<and>
   (contentPass B [a, b] = [a, b] \<longleftrightarrow>
      normalizeTitle (event_title a) \<noteq> [] \<and> normalizeTitle (event_title b) \<noteq> [] \<and>
      contentKey B a \<noteq> contentKey B b) \<and>
   (contentPass B [a\<lparr>event_category := ca\<rparr>, b\<lparr>event_category := cb\<rparr>] =
      [a\<lparr>event_category := ca\<rparr>, b\<lparr>event_category := cb\<rparr>] \<longleftrightarrow>
    contentPass B [a, b] = [a, b])"
proof (intro conjI)
  show "contentKey B e =
     normalizeTitle (event_title e) @ ''|'' @ take 10 (orEmpty (event_date_utc e)) @ ''|'' @
     keyCoord B (latitude e) @ ''|'' @ keyCoord B (longitude e)"
    by (simp add: contentKey_def keyDate_def)
  show "contentKey B (e\<lparr>event_category := c\<rparr>) = contentKey B e"
    by (rule contentKey_category)
  show "contentPass B [a, b] = [a, b] \<longleftrightarrow>
     normalizeTitle (event_title a) \<noteq> [] \<and> normalizeTitle (event_title b) \<noteq> [] \<and>
     contentKey B a \<noteq> contentKey B b"
    by (rule contentPass_pair)
  show "contentPass B [a\<lparr>event_category := ca\<rparr>, b\<lparr>event_category := cb\<rparr>] =
     [a\<lparr>event_category := ca\<rparr>, b\<lparr>event_category := cb\<rparr>] \<longleftrightarrow>
   contentPass B [a, b] = [a, b]"
    by (simp add: contentPass_pair contentKey_category)
qed

text \<open>Two flood records of one day with one title, 15 km apart, do not collapse; with
  the category of a fire they still do not.\<close>

theorem content_key_uniform_witness:
  "contentKey exampleBuiltins exFlood1 = ''river flood|2025-09-01|9.9500|20.0000'' \<and>
   contentKey exampleBuiltins exFlood2 = ''river flood|2025-09-01|10.0850|20.0000'' \<and>
   contentPass exampleBuiltins [exFlood1, exFlood2] = [exFlood1, exFlood2] \<and>
   contentPass exampleBuiltins
     [exFlood1\<lparr>event_category := Str ''Fire in built environment''\<rparr>,
      exFlood2\<lparr>event_category := Str ''Fire in built environment''\<rparr>] =
     [exFlood1\<lparr>event_category := Str ''Fire in built environment''\<rparr>,
      exFlood2\<lparr>event_category := Str ''Fire in built environment''\<rparr>]"
proof -
  have k1: "contentKey exampleBuiltins exFlood1 = ''river flood|2025-09-01|9.9500|20.0000''"
    by (simp add: exFlood1_def example_eval)
  have k2: "contentKey exampleBuiltins exFlood2 = ''river flood|2025-09-01|10.0850|20.0000''"
    by (simp add: exFlood2_def example_eval)
  have t: "normalizeTitle (event_title exFlood1) \<noteq> []" "normalizeTitle (event_title exFlood2) \<noteq> []"
    by (simp_all add: exFlood1_def exFlood2_def example_eval)
  have a: "contentPass exampleBuiltins [exFlood1, exFlood2] = [exFlood1, exFlood2]"
    using content_key_uniform[where B=exampleBuiltins and a=exFlood1 and b=exFlood2]
      k1 k2 t by simp
  with content_key_uniform[where B=exampleBuiltins and a=exFlood1 and b=exFlood2
      and ca="Str ''Fire in built environment''" and cb="Str ''Fire in built environment''"]
    k1 k2
  show ?thesis by simp
qed

subsection \<open>Idempotence\<close>

text \<open>Claim C9. Running the two passes on their own output gives the same sequence
  again.\<close>

theorem deduplicate_idempotent:
  "deduplicate B (deduplicate B allEvents) = deduplicate B allEvents"
  by (rule deduplicate_idem)

text \<open>Five records, among them one with a blank identifier, two with the identifier
  \<^verbatim>\<open>F1\<close> and two with one content key: two records are left, and deduplicating these
  two again leaves them as they are.\<close>

theorem deduplicate_idempotent_witness:
  "deduplicate exampleBuiltins [exFire1, exBlankId, exFlood1, exFlood1Copy, exFire1Later] =
     [exFire1Later, exFlood1] \<and>
   deduplicate exampleBuiltins [exFire1Later, exFlood1] = [exFire1Later, exFlood1]"
proof -
  have ids: "event_id exFire1 = Str ''F1''" "event_id exFire1Later = Str ''F1''"
    "event_id exBlankId = Str '' ''" "event_id exFlood1 = Str ''W1''"
    "event_id exFlood1Copy = Str ''W9''"
    by (simp_all add: exFire1_def exFire1Later_def exBlankId_def exFlood1_def exFlood1Copy_def
        rawRecord_def)
  have times: "crawlTime exampleBuiltins exFire1 = Some 1756771200000"
    "crawlTime exampleBuiltins exFire1Later = Some 1756857600000"
    by (simp_all add: exFire1_def exFire1Later_def example_eval)
  have i: "identityPass exampleBuiltins [exFire1, exBlankId, exFlood1, exFlood1Copy, exFire1Later]
      = [exFire1Later, exFlood1, exFlood1Copy]"
    by (simp add: identityPass_def identityMap_def identityStep_def ids times trim_def isSpace_def
        dateGt_def)
  have keys: "contentKey exampleBuiltins exFire1Later = ''forest fire update|2025-09-01|9.9500|20.0000''"
    "contentKey exampleBuiltins exFlood1 = ''river flood|2025-09-01|9.9500|20.0000''"
    "contentKey exampleBuiltins exFlood1Copy = ''river flood|2025-09-01|9.9500|20.0000''"
    by (simp_all add: exFire1Later_def exFlood1_def exFlood1Copy_def example_eval)
  have titles: "normalizeTitle (event_title exFire1Later) = ''forest fire update''"
    "normalizeTitle (event_title exFlood1) = ''river flood''"
    by (simp_all add: exFire1Later_def exFlood1_def example_eval)
  have d: "deduplicate exampleBuiltins [exFire1, exBlankId, exFlood1, exFlood1Copy, exFire1Later]
      = [exFire1Later, exFlood1]"
    by (simp add: deduplicate_def i contentPass_def Let_def keys titles)
  from deduplicate_idempotent[of exampleBuiltins
      "[exFire1, exBlankId, exFlood1, exFlood1Copy, exFire1Later]"] d
  show ?thesis by simp
qed

subsection \<open>Preprocessing\<close>

text \<open>Claim C5. In a sanitized event a coordinate that is \<^verbatim>\<open>null\<close>, missing, empty or not
  numeric (\<^verbatim>\<open>parseFloat\<close> gives \<^verbatim>\<open>NaN\<close>) is 0, and \<^verbatim>\<open>hasValidCoords\<close> is true exactly when both
  raw coordinates parse to numbers other than 0, which is exactly when both sanitized
  coordinates are not 0. With the latitude \<^verbatim>\<open>""\<close> and the longitude \<^verbatim>\<open>"12.3"\<close> the latitude
  is 0 and \<^verbatim>\<open>hasValidCoords\<close> is false.\<close>

theorem sanitize_coordinates:
  "(latitude e \<in> {Undefined, Null, Str []} \<or> (\<exists>s. latitude e = Str s \<and> parseFloat B s = None)
      \<longrightarrow> latitude (sanitize B now e) = 0) \<and>
   (longitude e \<in> {Undefined, Null, Str []} \<or> (\<exists>s. longitude e = Str s \<and> parseFloat B s = None)
      \<longrightarrow> longitude (sanitize B now e) = 0) \<and>
   (hasValidCoords (sanitize B now e) \<longleftrightarrow>
      (\<exists>s x. latitude e = Str s \<and> s \<noteq> [] \<and> parseFloat B s = Some x \<and> x \<noteq> 0) \<and>
      (\<exists>s y. longitude e = Str s \<and> s \<noteq> [] \<and> parseFloat B s = Some y \<and> y \<noteq> 0)) \<and>
   (hasValidCoords (sanitize B now e) \<longleftrightarrow>
      latitude (sanitize B now e) \<noteq> 0 \<and> longitude (sanitize B now e) \<noteq> 0) \<and>
   (latitude e = Str [] \<and> longitude e = Str ''12.3'' \<longrightarrow>
      latitude (sanitize B now e) = 0 \<and> \<not> hasValidCoords (sanitize B now e))"
proof (intro conjI)
  show "latitude e \<in> {Undefined, Null, Str []} \<or> (\<exists>s. latitude e = Str s \<and> parseFloat B s = None)
      \<longrightarrow> latitude (sanitize B now e) = 0"
    using sanitizeCoord_zero[of "latitude e" B] by simp
  show "longitude e \<in> {Undefined, Null, Str []} \<or> (\<exists>s. longitude e = Str s \<and> parseFloat B s = None)
      \<longrightarrow> longitude (sanitize B now e) = 0"
    using sanitizeCoord_zero[of "longitude e" B] by simp
  show "hasValidCoords (sanitize B now e) \<longleftrightarrow>
      (\<exists>s x. latitude e = Str s \<and> s \<noteq> [] \<and> parseFloat B s = Some x \<and> x \<noteq> 0) \<and>
      (\<exists>s y. longitude e = Str s \<and> s \<noteq> [] \<and> parseFloat B s = Some y \<and> y \<noteq> 0)"
    by (simp add: sanitizeCoord_nonzero)
  show "hasValidCoords (sanitize B now e) \<longleftrightarrow>
      latitude (sanitize B now e) \<noteq> 0 \<and> longitude (sanitize B now e) \<noteq> 0"
    by simp
  show "latitude e = Str [] \<and> longitude e = Str ''12.3'' \<longrightarrow>
      latitude (sanitize B now e) = 0 \<and> \<not> hasValidCoords (sanitize B now e)"
    by (simp add: sanitizeCoord_def)
qed

text \<open>The record with the latitude \<^verbatim>\<open>""\<close> and the longitude \<^verbatim>\<open>"12.3"\<close>; a record with the
  longitude \<^verbatim>\<open>"abc"\<close>; and a record with two numeric coordinates.\<close>

theorem sanitize_coordinates_witness:
  "latitude exNoLatitude = Str [] \<and> longitude exNoLatitude = Str ''12.3'' \<and>
   latitude (sanitize exampleBuiltins 1756857600000 exNoLatitude) = 0 \<and>
   longitude (sanitize exampleBuiltins 1756857600000 exNoLatitude) = 12.3 \<and>
   \<not> hasValidCoords (sanitize exampleBuiltins 1756857600000 exNoLatitude) \<and>
   longitude (sanitize exampleBuiltins 1756857600000 exBadLongitude) = 0 \<and>
   \<not> hasValidCoords (sanitize exampleBuiltins 1756857600000 exBadLongitude) \<and>
   hasValidCoords (sanitize exampleBuiltins 1756857600000 exFire1)"
proof -
  have raw: "latitude exNoLatitude = Str []" "longitude exNoLatitude = Str ''12.3''"
    "longitude exBadLongitude = Str ''abc''" "parseFloat exampleBuiltins ''abc'' = None"
    "latitude exFire1 = Str ''9.9500''" "longitude exFire1 = Str ''20.0000''"
    "parseFloat exampleBuiltins ''9.9500'' = Some 9.95"
    "parseFloat exampleBuiltins ''20.0000'' = Some 20"
    by (simp_all add: exNoLatitude_def exBadLongitude_def exFire1_def rawRecord_def
        exampleBuiltins_def)
  have lon: "longitude (sanitize exampleBuiltins 1756857600000 exNoLatitude) = 12.3"
    by (simp add: raw sanitizeCoord_def exampleBuiltins_def)
  have nz: "(9.95::real) \<noteq> 0" "(20::real) \<noteq> 0" "''9.9500'' \<noteq> []" "''20.0000'' \<noteq> []"
    by simp_all
  note a = sanitize_coordinates[of exNoLatitude exampleBuiltins 1756857600000]
  note b = sanitize_coordinates[of exBadLongitude exampleBuiltins 1756857600000]
  note c = sanitize_coordinates[of exFire1 exampleBuiltins 1756857600000]
  have "latitude (sanitize exampleBuiltins 1756857600000 exNoLatitude) = 0 \<and>
      \<not> hasValidCoords (sanitize exampleBuiltins 1756857600000 exNoLatitude)"
    using a raw(1,2) by blast
  moreover have "longitude (sanitize exampleBuiltins 1756857600000 exBadLongitude) = 0"
    using b raw(3,4) by blast
  moreover from this have "\<not> hasValidCoords (sanitize exampleBuiltins 1756857600000 exBadLongitude)"
    using b by blast
  moreover have "hasValidCoords (sanitize exampleBuiltins 1756857600000 exFire1)"
    using c raw(5-8) nz by blast
  ultimately show ?thesis using raw(1,2) lon by simp
qed

text \<open>Claim C6, as stated, fails on the older copy of the loader, \<^verbatim>\<open>docs/script.js\<close>: its
  preprocessing keeps the records whose two coordinates parse, so a record with a title
  and the longitude \<^verbatim>\<open>"abc"\<close> is dropped.\<close>

theorem preprocess_docs_counterexample:
  "event_title exBadLongitude = Str ''Earthquake'' \<and>
   nonBlank (event_title exBadLongitude) \<and>
   preprocess_docs exampleBuiltins [exBadLongitude] = []"
  by (simp add: exBadLongitude_def rawRecord_def preprocess_docs_def nonBlank_def trim_def
      isSpace_def exampleBuiltins_def)

text \<open>Claim C6, amended: in the loader that computes \<^verbatim>\<open>hasValidCoords\<close>, the preprocessing
  drops a record only for a missing or blank title. Its output is the sanitized records
  with a non-blank title, in their order; every record with a non-blank title is
  retained with its identifier and title, a coordinate that does not parse is 0, and
  an invalid date gives the current time as event date. The older copy of the loader
  keeps only records of which both coordinates parse.\<close>

theorem preprocess_retains:
  "preprocess B now deduped =
     map (sanitize B now) (filter (\<lambda>e. nonBlank (event_title e)) deduped) \<and>
   (\<forall>e \<in> set deduped. (\<exists>t. event_title e = Str t \<and> \<not> blank t) \<longrightarrow>
      sanitize B now e \<in> set (preprocess B now deduped) \<and>
      event_id (sanitize B now e) = event_id e \<and>
      event_title (sanitize B now e) = event_title e \<and>
      ((\<exists>s. latitude e = Str s \<and> parseFloat B s = None) \<longrightarrow> latitude (sanitize B now e) = 0) \<and>
      ((\<exists>s. longitude e = Str s \<and> parseFloat B s = None) \<longrightarrow> longitude (sanitize B now e) = 0) \<and>
      (newDate B (fixDateString (event_date_utc e)) = None \<longrightarrow>
         event_date (sanitize B now e) = now)) \<and>
   (\<forall>(e, lat, lon, date) \<in> set (preprocess_docs B deduped). lat \<noteq> None \<and> lon \<noteq> None)"
proof (intro conjI ballI impI)
  show "preprocess B now deduped =
     map (sanitize B now) (filter (\<lambda>e. nonBlank (event_title e)) deduped)"
    by (rule preprocess_eq)
next
  fix e :: raw_event
  assume "e \<in> set deduped" "\<exists>t. event_title e = Str t \<and> \<not> blank t"
  then show "sanitize B now e \<in> set (preprocess B now deduped)"
    by (auto simp: preprocess_eq nonBlank_iff)
next
  fix e :: raw_event
  assume "\<exists>s. latitude e = Str s \<and> parseFloat B s = None"
  then show "latitude (sanitize B now e) = 0"
    using sanitizeCoord_zero[of "latitude e" B] by simp
next
  fix e :: raw_event
  assume "\<exists>s. longitude e = Str s \<and> parseFloat B s = None"
  then show "longitude (sanitize B now e) = 0"
    using sanitizeCoord_zero[of "longitude e" B] by simp
next
  fix x assume "x \<in> set (preprocess_docs B deduped)"
  then show "case x of (e, lat, lon, date) \<Rightarrow> lat \<noteq> None \<and> lon \<noteq> None"
    using preprocess_docs_parsed[of x B deduped] by (simp add: case_prod_unfold)
qed simp_all

text \<open>A record with a title, the longitude \<^verbatim>\<open>"abc"\<close> and the date \<^verbatim>\<open>"not a date"\<close> is kept,
  with the longitude 0 and the current time as its date; so is a record with the latitude
  \<^verbatim>\<open>"abc"\<close>, with the latitude 0; the record with a white-space title is dropped.\<close>

theorem preprocess_retains_witness:
  "preprocess exampleBuiltins 1756857600000 [exBadLongitude, exNoTitle, exBadLatitude] =
     [sanitize exampleBuiltins 1756857600000 exBadLongitude,
      sanitize exampleBuiltins 1756857600000 exBadLatitude] \<and>
   latitude (sanitize exampleBuiltins 1756857600000 exBadLongitude) = 12.3 \<and>
   longitude (sanitize exampleBuiltins 1756857600000 exBadLongitude) = 0 \<and>
   event_date (sanitize exampleBuiltins 1756857600000 exBadLongitude) = 1756857600000 \<and>
   latitude (sanitize exampleBuiltins 1756857600000 exBadLatitude) = 0 \<and>
   longitude (sanitize exampleBuiltins 1756857600000 exBadLatitude) = 12.3"
proof -
  have raw: "event_title exBadLongitude = Str ''Earthquake''" "event_title exNoTitle = Str ''  ''"
    "longitude exBadLongitude = Str ''abc''" "latitude exBadLongitude = Str ''12.3''"
    "event_date_utc exBadLongitude = Str ''not a date''"
    "event_title exBadLatitude = Str ''Landslide''"
    "latitude exBadLatitude = Str ''abc''" "longitude exBadLatitude = Str ''12.3''"
    by (simp_all add: exBadLongitude_def exNoTitle_def exBadLatitude_def rawRecord_def)
  have b: "\<not> blank ''Earthquake''" "blank ''  ''" "\<not> blank ''Landslide''"
    by (simp_all add: blank_def isSpace_def)
  have p: "parseFloat exampleBuiltins ''abc'' = None" "parseFloat exampleBuiltins ''12.3'' = Some 12.3"
    "parseDate exampleBuiltins ''not a date'' = None"
    by (simp_all add: exampleBuiltins_def)
  have f: "fixDateString (Str ''not a date'') = Str ''not a date''"
    by (simp add: fixDateString_def)
  have lat: "latitude (sanitize exampleBuiltins 1756857600000 exBadLongitude) = 12.3"
    "longitude (sanitize exampleBuiltins 1756857600000 exBadLatitude) = 12.3"
    by (simp_all add: raw p sanitizeCoord_def)
  from preprocess_retains[of exampleBuiltins 1756857600000
      "[exBadLongitude, exNoTitle, exBadLatitude]"]
    raw b p f lat
  show ?thesis by (simp add: nonBlank_iff newDate_def)
qed

subsection \<open>Clustering\<close>

text \<open>Claim C7, as stated, fails: the greedy loop is not monotone in the radius. On the
  five events of \<^const>\<open>exFive\<close> the radius 0.5 gives two clusters (the events 1, 5 and
  2, 3, 4) and the larger radius 1.0 gives three (1, 3, 4; then 2; then 5): with the larger
  radius the third and fourth events join the first cluster and pull its centre away
  from the fifth.\<close>

theorem radius_monotonicity_counterexample:
  "map (map event_id \<circ> events) (clusterEvents 0.5 exFive) =
     [[Str ''1'', Str ''5''], [Str ''2'', Str ''3'', Str ''4'']] \<and>
   map (map event_id \<circ> events) (clusterEvents 1.0 exFive) =
     [[Str ''1'', Str ''3'', Str ''4''], [Str ''2''], [Str ''5'']] \<and>
   length (clusterEvents 0.5 exFive) < length (clusterEvents 1.0 exFive)"
  by (simp add: exFive_def cluster_eval)

text \<open>Claim C7, amended. For an input of at most three events, clustering with the
  radius R1 gives at least as many clusters as with a radius R2 greater than R1. For longer
  inputs the loop only guarantees that the number of clusters is at most the number of
  events, and at least one when there is an event.\<close>

theorem cluster_count_small_inputs:
  "(R1 < R2 \<and> length input \<le> 3 \<longrightarrow>
      length (clusterEvents R2 input) \<le> length (clusterEvents R1 input)) \<and>
   length (clusterEvents R input) \<le> length input \<and>
   (input \<noteq> [] \<longrightarrow> 1 \<le> length (clusterEvents R input))"
  using cluster_mono_le3[where ?R1.0=R1 and ?R2.0=R2 and input=input]
    clusterEvents_bounds[where R=R and input=input] by blast

text \<open>The first three events of \<^const>\<open>exFive\<close>: two clusters with either radius.\<close>

theorem cluster_count_small_inputs_witness:
  "length (take 3 exFive) = 3 \<and>
   length (clusterEvents 0.5 (take 3 exFive)) = 2 \<and>
   length (clusterEvents 1.0 (take 3 exFive)) = 2 \<and>
   length (clusterEvents 1.0 (take 3 exFive)) \<le> length (clusterEvents 0.5 (take 3 exFive)) \<and>
   1 \<le> length (clusterEvents 1.0 (take 3 exFive))"
proof -
  have l: "length (take 3 exFive) = 3"
    by (simp add: exFive_def)
  have a: "length (clusterEvents 0.5 (take 3 exFive)) = 2"
    by (simp add: exFive_def cluster_eval)
  have b: "length (clusterEvents 1.0 (take 3 exFive)) = 2"
    by (simp add: exFive_def cluster_eval)
  have "(0.5::real) < 1.0" by simp
  with cluster_count_small_inputs[of "0.5" "1.0" "take 3 exFive"] l
  have "length (clusterEvents 1.0 (take 3 exFive)) \<le> length (clusterEvents 0.5 (take 3 exFive))"
    by simp
  with l a b show ?thesis by simp
qed

text \<open>Claim C8 does not hold of the code. Neither clustering loop tests \<^verbatim>\<open>hasValidCoords\<close>
  (only \<^verbatim>\<open>updateMapMarkers\<close> does): every input event becomes a member of a cluster, see
  \<open>clusterEvents_member\<close>. The sanitized record with the latitude \<^verbatim>\<open>""\<close> has no valid
  coordinates and is the member of a cluster of both passes, at latitude 0.\<close>

theorem clustering_ignores_hasValidCoords:
  "\<not> hasValidCoords (sanitize exampleBuiltins 1756857600000 exNoLatitude) \<and>
   latitude (sanitize exampleBuiltins 1756857600000 exNoLatitude) = 0 \<and>
   updateStats_clusters [sanitize exampleBuiltins 1756857600000 exNoLatitude] =
     [\<lparr>events = [sanitize exampleBuiltins 1756857600000 exNoLatitude]\<rparr>] \<and>
   checkRiskAlerts_clusters 1754265600000 [sanitize exampleBuiltins 1756857600000 exNoLatitude] =
     [\<lparr>events = [sanitize exampleBuiltins 1756857600000 exNoLatitude]\<rparr>]"
proof -
  have raw: "latitude exNoLatitude = Str []" "event_date_utc exNoLatitude = Str ''2025-09-01T00:00:00Z''"
    by (simp_all add: exNoLatitude_def rawRecord_def)
  have d: "event_date (sanitize exampleBuiltins 1756857600000 exNoLatitude) = 1756684800000"
    by (simp add: raw fixDateString_def newDate_def exampleBuiltins_def)
  show ?thesis
    using d
    by (simp add: raw sanitizeCoord_def updateStats_clusters_def checkRiskAlerts_clusters_def
        recentEvents_def clusterEvents_def clusterStep_def)
qed

subsection \<open>The whole load\<close>

text \<open>Claim C10. Every event that \<^verbatim>\<open>loadDisasterData\<close> emits has an identifier and a title
  that are strings with a character other than white space. A record whose identifier is
  \<^verbatim>\<open>null\<close>, missing, empty or white space is skipped by the identity pass, whatever its
  other fields: the pass gives the same result without it. A record whose title is
  blank is dropped by the final filter in the same way.\<close>

theorem load_nonblank_id_title:
  "(\<forall>e \<in> set (loadDisasterData B now pastData mainData).
      (\<exists>i. event_id e = Str i \<and> \<not> blank i) \<and> (\<exists>t. event_title e = Str t \<and> \<not> blank t)) \<and>
   ((\<forall>i. event_id r = Str i \<longrightarrow> blank i) \<longrightarrow>
      identityPass B (xs @ r # ys) = identityPass B (xs @ ys)) \<and>
   ((\<forall>t. event_title r = Str t \<longrightarrow> blank t) \<longrightarrow>
      preprocess B now (xs @ r # ys) = preprocess B now (xs @ ys))"
proof (intro conjI ballI impI)
  fix e assume "e \<in> set (loadDisasterData B now pastData mainData)"
  from load_members[OF this]
  show "\<exists>i. event_id e = Str i \<and> \<not> blank i" "\<exists>t. event_title e = Str t \<and> \<not> blank t"
    by (simp_all add: nonBlank_iff)
next
  assume "\<forall>i. event_id r = Str i \<longrightarrow> blank i"
  then have "\<not> nonBlank (event_id r)" by (auto simp: nonBlank_iff)
  then show "identityPass B (xs @ r # ys) = identityPass B (xs @ ys)"
    by (rule identityPass_drop_blank)
next
  assume "\<forall>t. event_title r = Str t \<longrightarrow> blank t"
  then have "\<not> nonBlank (event_title r)" by (auto simp: nonBlank_iff)
  then show "preprocess B now (xs @ r # ys) = preprocess B now (xs @ ys)"
    by (simp add: preprocess_eq)
qed

text \<open>A load of five records: the one with the identifier \<^verbatim>\<open>" "\<close> and the one with the
  title \<^verbatim>\<open>"  "\<close> are not emitted; the two emitted events have the identifiers \<^verbatim>\<open>F1\<close> and
  \<^verbatim>\<open>W1\<close>.\<close>

theorem load_nonblank_id_title_witness:
  "loadDisasterData exampleBuiltins 1756857600000 [exFire1, exBlankId]
      [exFlood1, exFire1Later, exNoTitle] =
     [sanitize exampleBuiltins 1756857600000 exFire1Later,
      sanitize exampleBuiltins 1756857600000 exFlood1] \<and>
   (\<exists>i. event_id (sanitize exampleBuiltins 1756857600000 exFire1Later) = Str i \<and> \<not> blank i) \<and>
   (\<exists>t. event_title (sanitize exampleBuiltins 1756857600000 exFire1Later) = Str t \<and> \<not> blank t) \<and>
   identityPass exampleBuiltins ([exFire1] @ exBlankId # [exFlood1]) =
     identityPass exampleBuiltins ([exFire1] @ [exFlood1]) \<and>
   preprocess exampleBuiltins 1756857600000 ([exFire1] @ exNoTitle # [exFlood1]) =
     preprocess exampleBuiltins 1756857600000 ([exFire1] @ [exFlood1])"
proof -
  have ids: "event_id exFire1 = Str ''F1''" "event_id exFire1Later = Str ''F1''"
    "event_id exBlankId = Str '' ''" "event_id exFlood1 = Str ''W1''"
    "event_id exNoTitle = Str ''N3''"
    by (simp_all add: exFire1_def exFire1Later_def exBlankId_def exFlood1_def exNoTitle_def
        rawRecord_def)
  have times: "crawlTime exampleBuiltins exFire1 = Some 1756771200000"
    "crawlTime exampleBuiltins exFire1Later = Some 1756857600000"
    by (simp_all add: exFire1_def exFire1Later_def example_eval)
  have i: "identityPass exampleBuiltins ([exFire1, exBlankId] @ [exFlood1, exFire1Later, exNoTitle])
      = [exFire1Later, exFlood1, exNoTitle]"
    by (simp add: identityPass_def identityMap_def identityStep_def ids times trim_def isSpace_def
        dateGt_def)
  have keys: "contentKey exampleBuiltins exFire1Later = ''forest fire update|2025-09-01|9.9500|20.0000''"
    "contentKey exampleBuiltins exFlood1 = ''river flood|2025-09-01|9.9500|20.0000''"
    by (simp_all add: exFire1Later_def exFlood1_def example_eval)
  have titles: "normalizeTitle (event_title exFire1Later) = ''forest fire update''"
    "normalizeTitle (event_title exFlood1) = ''river flood''"
    "normalizeTitle (event_title exNoTitle) = []"
    by (simp_all add: exFire1Later_def exFlood1_def exNoTitle_def example_eval)
  have d: "deduplicate exampleBuiltins ([exFire1, exBlankId] @ [exFlood1, exFire1Later, exNoTitle])
      = [exFire1Later, exFlood1]"
    by (simp only: deduplicate_def i) (simp add: contentPass_def Let_def keys titles)
  have raw: "event_title exFire1Later = Str ''Forest fire (update)''"
    "event_title exFlood1 = Str ''River flood''" "event_title exNoTitle = Str ''  ''"
    "event_date_utc exFire1Later = Str ''2025-09-01T00:00:00Z''"
    "event_date_utc exFlood1 = Str ''2025-09-01T00:00:00Z''"
    by (simp_all add: exFire1Later_def exFlood1_def exNoTitle_def rawRecord_def)
  have nb: "nonBlank (Str ''Forest fire (update)'')" "nonBlank (Str ''River flood'')"
    "blank ''  ''" "\<not> blank ''F1''" "\<not> blank ''Forest fire (update)''"
    by (simp_all add: nonBlank_def trim_def isSpace_def blank_def)
  have dates: "event_date (sanitize exampleBuiltins 1756857600000 exFire1Later) = 1756684800000"
    "event_date (sanitize exampleBuiltins 1756857600000 exFlood1) = 1756684800000"
    by (simp_all add: raw fixDateString_def newDate_def exampleBuiltins_def)
  have l: "loadDisasterData exampleBuiltins 1756857600000 [exFire1, exBlankId]
      [exFlood1, exFire1Later, exNoTitle] =
     [sanitize exampleBuiltins 1756857600000 exFire1Later,
      sanitize exampleBuiltins 1756857600000 exFlood1]"
    by (simp only: loadDisasterData_def d) (simp add: preprocess_def raw nb dates)
  note t = load_nonblank_id_title[where B=exampleBuiltins and now=1756857600000
      and pastData="[exFire1, exBlankId]" and mainData="[exFlood1, exFire1Later, exNoTitle]"]
  from t l have m: "(\<exists>i. event_id (sanitize exampleBuiltins 1756857600000 exFire1Later) = Str i \<and> \<not> blank i) \<and>
   (\<exists>t. event_title (sanitize exampleBuiltins 1756857600000 exFire1Later) = Str t \<and> \<not> blank t)"
    by simp
  have b1: "\<forall>i. event_id exBlankId = Str i \<longrightarrow> blank i"
    by (simp add: ids blank_def isSpace_def)
  have b2: "\<forall>t. event_title exNoTitle = Str t \<longrightarrow> blank t"
    by (simp add: raw blank_def isSpace_def)
  from load_nonblank_id_title[where B=exampleBuiltins and r=exBlankId and xs="[exFire1]"
      and ys="[exFlood1]"] b1
  have p1: "identityPass exampleBuiltins ([exFire1] @ exBlankId # [exFlood1]) =
     identityPass exampleBuiltins ([exFire1] @ [exFlood1])" by blast
  from load_nonblank_id_title[where B=exampleBuiltins and r=exNoTitle and xs="[exFire1]"
      and ys="[exFlood1]" and now=1756857600000] b2
  have p2: "preprocess exampleBuiltins 1756857600000 ([exFire1] @ exNoTitle # [exFlood1]) =
     preprocess exampleBuiltins 1756857600000 ([exFire1] @ [exFlood1])" by blast
  from l m p1 p2 show ?thesis by blast
qed


end
